theory Spec2Isabelle
  imports Main "HOL-Library.Word"
begin

section \<open>Memory, pointers and the allocator\<close>

text \<open>
  The containers of \<^verbatim>\<open>mj_common.h\<close> work on raw storage through pointers. Storage is
  modelled as one flat store from addresses to cells. For the growable array a cell holds one
  element of type \<open>T\<close>, so that \<^verbatim>\<open>p + i\<close> on a \<^verbatim>\<open>T*\<close> is address
  addition and a byte count \<^verbatim>\<open>n * TSize\<close> handed to \<^verbatim>\<open>memmove\<close> or
  \<^verbatim>\<open>memcpy\<close> stands for \<open>n\<close> cells (the byte count itself is taken to fit in 32 bits).
  Reading a cell outside a block gives what the store holds there. Address \<open>0\<close> is
  \<^verbatim>\<open>nullptr\<close>.
  The 32-bit fields \<^verbatim>\<open>numElements\<close> and \<^verbatim>\<open>capacity\<close> are 32-bit words:
  their sums and products wrap as in the source.
\<close>

type_synonym u32 = "32 word"
type_synonym addr = nat
type_synonym 'a heap = "addr \<Rightarrow> 'a"

text \<open>\<^verbatim>\<open>memmove(dst, src, n)\<close>: the \<open>n\<close> cells from \<open>src\<close> are read first, then stored from \<open>dst\<close>.\<close>

definition memmove :: "'a heap \<Rightarrow> addr \<Rightarrow> addr \<Rightarrow> nat \<Rightarrow> 'a heap" where
  "memmove h dst src n = (\<lambda>a. if dst \<le> a \<and> a < dst + n then h (src + (a - dst)) else h a)"

text \<open>\<^verbatim>\<open>memcpy(dst, src, n)\<close>: the same copy; the source uses it only between blocks it
  takes to be disjoint.\<close>

definition memcpy :: "'a heap \<Rightarrow> addr \<Rightarrow> addr \<Rightarrow> nat \<Rightarrow> 'a heap" where
  "memcpy h dst src n = memmove h dst src n"

text \<open>
  Modelled from the spec: \<^verbatim>\<open>mj_allocator.h\<close> (the \<^verbatim>\<open>Allocator\<close> interface and the heap
  allocator) is not among the sources. The spec gives the contract
  \<^verbatim>\<open>Allocate(byteSize) -> pointer | null\<close> and \<^verbatim>\<open>Free(pointer)\<close>, failure being a null
  pointer. An allocator is modelled by the answers it is going to give, in order: \<open>0\<close> for a
  refused request, the address of the new block otherwise. An allocator with no answer left
  refuses. Any run of a real allocator is one such list of answers.
\<close>

type_synonym allocator = "addr list"

text \<open>Modelled from the spec: \<^verbatim>\<open>Allocate(byteSize)\<close> gives the next answer; the answer does not
  depend on the size asked for.\<close>

definition Allocate :: "allocator \<Rightarrow> u32 \<Rightarrow> addr \<times> allocator" where
  "Allocate al byteSize = (case al of [] \<Rightarrow> (0, []) | a # rest \<Rightarrow> (a, rest))"

text \<open>Modelled from the spec: \<^verbatim>\<open>Free(pointer)\<close> releases a block; no later answer depends
  on it and the contents of the store stay.\<close>

definition Free :: "allocator \<Rightarrow> addr \<Rightarrow> allocator" where
  "Free al p = al"

section \<open>The growable array \<^verbatim>\<open>mj::ArrayList<T>\<close>\<close>

text \<open>The object's fields, together with the store its pointers point into and the state of
  the allocator behind \<^verbatim>\<open>pAllocator\<close>. \<open>TSize\<close> is \<^verbatim>\<open>sizeof(T)\<close>.\<close>

record 'a ArrayList =
  TSize :: u32
  pAllocator :: allocator
  pData :: addr
  numElements :: u32
  capacity :: u32
  mem :: "'a heap"

text \<open>\<^verbatim>\<open>ArrayList(Allocator* pAllocator)\<close>: no allocation.\<close>

definition ArrayList_new :: "u32 \<Rightarrow> allocator \<Rightarrow> 'a heap \<Rightarrow> 'a ArrayList" where
  "ArrayList_new tsize al h =
     \<lparr>TSize = tsize, pAllocator = al, pData = 0, numElements = 0, capacity = 0, mem = h\<rparr>"


definition Size :: "'a ArrayList \<Rightarrow> u32" where
  "Size s = numElements s"

definition Capacity :: "'a ArrayList \<Rightarrow> u32" where
  "Capacity s = capacity s"

definition ElemSize :: "'a ArrayList \<Rightarrow> u32" where
  "ElemSize s = TSize s"

text \<open>\<^verbatim>\<open>begin()\<close> and \<^verbatim>\<open>end()\<close>.\<close>

definition begin_ptr :: "'a ArrayList \<Rightarrow> addr" where
  "begin_ptr s = pData s"

definition end_ptr :: "'a ArrayList \<Rightarrow> addr" where
  "end_ptr s = pData s + unat (Size s)"

text \<open>The live elements \<open>[0, count)\<close>, read through \<^verbatim>\<open>operator[]\<close>.\<close>

definition elems :: "'a ArrayList \<Rightarrow> 'a list" where
  "elems s = map (\<lambda>i. mem s (pData s + i)) [0 ..< unat (numElements s)]"

text \<open>\<^verbatim>\<open>Expand(newCapacity)\<close>: allocate, copy the live elements, free the old block.\<close>

definition Expand :: "u32 \<Rightarrow> 'a ArrayList \<Rightarrow> bool \<times> 'a ArrayList" where
  "Expand newCapacity s =
     (let (ptr, al) = Allocate (pAllocator s) (newCapacity * ElemSize s)
      in if ptr \<noteq> 0
         then (True, s\<lparr>mem := memcpy (mem s) ptr (pData s) (unat (numElements s)),
                       pAllocator := Free al (pData s),
                       capacity := newCapacity,
                       pData := ptr\<rparr>)
         else (False, s\<lparr>pAllocator := al\<rparr>))"

definition Double :: "'a ArrayList \<Rightarrow> bool \<times> 'a ArrayList" where
  "Double s = (if capacity s = 0 then Expand 4 s else Expand (2 * capacity s) s)"

lemma Expand_consumes:
  "Expand c s = (True, s') \<Longrightarrow> length (pAllocator s') < length (pAllocator s)"
  by (auto simp: Expand_def Allocate_def Free_def split: list.splits if_splits)

lemma Double_consumes:
  "Double s = (True, s') \<Longrightarrow> length (pAllocator s') < length (pAllocator s)"
  by (auto simp: Double_def dest: Expand_consumes split: if_splits)

text \<open>\<^verbatim>\<open>Add(t)\<close>. The source calls itself again after a successful \<^verbatim>\<open>Double()\<close>; each such
  call has used up one answer of the allocator.\<close>

function Add :: "'a \<Rightarrow> 'a ArrayList \<Rightarrow> bool \<times> 'a ArrayList" where
  "Add t s =
     (if numElements s < capacity s
      then (True, s\<lparr>mem := (mem s)(pData s + unat (numElements s) := t),
                    numElements := numElements s + 1\<rparr>)
      else (case Double s of
              (True, s') \<Rightarrow> Add t s'
            | (False, s') \<Rightarrow> (False, s')))"
  by pat_completeness auto
termination
  by (relation "measure (\<lambda>(t, s). length (pAllocator s))") (auto dest: Double_consumes [OF sym])

text \<open>\<^verbatim>\<open>Reserve(num)\<close>.\<close>

function Reserve :: "u32 \<Rightarrow> 'a ArrayList \<Rightarrow> addr \<times> 'a ArrayList" where
  "Reserve num s =
     (if num = 0 then (0, s)
      else if numElements s + num \<le> capacity s
      then (pData s + unat (numElements s), s\<lparr>numElements := numElements s + num\<rparr>)
      else (case Expand (numElements s + num) s of
              (True, s') \<Rightarrow> Reserve num s'
            | (False, s') \<Rightarrow> (0, s')))"
  by pat_completeness auto
termination
  by (relation "measure (\<lambda>(n, s). length (pAllocator s))") (auto dest: Expand_consumes [OF sym])

text \<open>\<^verbatim>\<open>Insert(position, pSrc, num)\<close>. \<open>pSrc\<close> is an address of the same store.\<close>

function Insert :: "u32 \<Rightarrow> addr \<Rightarrow> u32 \<Rightarrow> 'a ArrayList \<Rightarrow> addr \<times> 'a ArrayList" where
  "Insert position pSrc num s =
     (if num = 0 then (end_ptr s, s)
      else if pSrc = 0 then (0, s)
      else if position > numElements s then (0, s)
      else if numElements s + num \<le> capacity s
      then (let numMove = numElements s - position;
                ptr = begin_ptr s + unat position;
                moved = memmove (mem s) (end_ptr s + unat num - unat numMove) ptr (unat numMove);
                copied = memcpy moved ptr pSrc (unat num)
            in (ptr, s\<lparr>mem := copied, numElements := numElements s + num\<rparr>))
      else (case Expand (numElements s + num) s of
              (True, s') \<Rightarrow> Insert position pSrc num s'
            | (False, s') \<Rightarrow> (0, s')))"
  by pat_completeness auto
termination
  by (relation "measure (\<lambda>(p, src, n, s). length (pAllocator s))") (auto dest: Expand_consumes [OF sym])

text \<open>\<^verbatim>\<open>Erase(position, num)\<close>. The pointers \<open>pDst\<close>, \<open>pSrc\<close> and \<^verbatim>\<open>end()\<close> are compared
  as addresses; \<^verbatim>\<open>end() - pDst - 1\<close> elements are moved.\<close>

definition Erase :: "u32 \<Rightarrow> u32 \<Rightarrow> 'a ArrayList \<Rightarrow> addr \<times> 'a ArrayList" where
  "Erase position num s =
     (if position < numElements s
      then (let pDst = begin_ptr s + unat position;
                pSrc = pDst + unat num
            in if pSrc < end_ptr s
               then (pDst, s\<lparr>mem := memmove (mem s) pDst pSrc (end_ptr s - pDst - 1),
                             numElements := numElements s - num\<rparr>)
               else (0, s))
      else (0, s))"

declare Add.simps [simp del] Reserve.simps [simp del] Insert.simps [simp del]

section \<open>Auxiliary notions for stating the properties\<close>

text \<open>The next request to the allocator is refused.\<close>

definition alloc_fails :: "allocator \<Rightarrow> bool" where
  "alloc_fails al = (case al of [] \<Rightarrow> True | a # rest \<Rightarrow> a = 0)"

text \<open>A valid array: the count is within the capacity, and storage is there when the capacity
  is not zero. Both constructors give a valid array, the second one when its allocation is
  granted.\<close>

definition valid :: "'a ArrayList \<Rightarrow> bool" where
  "valid s = (numElements s \<le> capacity s \<and> (capacity s = 0 \<or> pData s \<noteq> 0))"

text \<open>A store of zeros, for concrete runs.\<close>

definition blank :: "nat heap" where
  "blank a = 0"








section \<open>The memory buffer cursor \<^verbatim>\<open>mj::MemoryBuffer\<close>\<close>

text \<open>
  The cursor holds two \<^verbatim>\<open>char*\<close> into storage it does not own. Pointers and \<^verbatim>\<open>size_t\<close> are
  64-bit words (the 64-bit Windows target), the storage is a store of bytes, and
  \<^verbatim>\<open>end - position\<close>, \<^verbatim>\<open>position += n\<close> and \<^verbatim>\<open>numElements * sizeof(T)\<close> are word
  arithmetic. A value of a type \<open>T\<close> is the list of its bytes and \<^verbatim>\<open>sizeof(T)\<close> their number.
  The fields \<^verbatim>\<open>end\<close> and \<^verbatim>\<open>position\<close> are called \<open>mb_end\<close> and \<open>mb_position\<close>.
\<close>

type_synonym byte = "8 word"
type_synonym size_t = "64 word"
type_synonym ptr = "64 word"
type_synonym bytes = "ptr \<Rightarrow> byte"

text \<open>\<^verbatim>\<open>memcpy(&t, position, n)\<close>: the \<open>n\<close> bytes from \<open>p\<close> on.\<close>

definition load :: "bytes \<Rightarrow> ptr \<Rightarrow> size_t \<Rightarrow> byte list" where
  "load h p n = map (\<lambda>i. h (p + of_nat i)) [0 ..< unat n]"

text \<open>\<^verbatim>\<open>memcpy(position, &t, n)\<close>: the first \<open>n\<close> bytes of the value \<open>t\<close> stored from \<open>p\<close> on.\<close>

definition copy_in :: "bytes \<Rightarrow> ptr \<Rightarrow> byte list \<Rightarrow> size_t \<Rightarrow> bytes" where
  "copy_in h p t n = (\<lambda>a. if a - p < n then t ! unat (a - p) else h a)"

text \<open>\<^verbatim>\<open>memcpy(position, pData, size)\<close> with a source inside the store.\<close>

definition copy_bytes :: "bytes \<Rightarrow> ptr \<Rightarrow> ptr \<Rightarrow> size_t \<Rightarrow> bytes" where
  "copy_bytes h dst src n = (\<lambda>a. if a - dst < n then h (src + (a - dst)) else h a)"

record MemoryBuffer =
  mb_end :: ptr
  mb_position :: ptr
  store :: bytes

text \<open>The three constructors: \<^verbatim>\<open>MemoryBuffer()\<close>, \<^verbatim>\<open>MemoryBuffer(pBegin, end)\<close> and
  \<^verbatim>\<open>MemoryBuffer(pBegin, size)\<close>.\<close>

definition MemoryBuffer_default :: "bytes \<Rightarrow> MemoryBuffer" where
  "MemoryBuffer_default h = \<lparr>mb_end = 0, mb_position = 0, store = h\<rparr>"

definition MemoryBuffer_range :: "ptr \<Rightarrow> ptr \<Rightarrow> bytes \<Rightarrow> MemoryBuffer" where
  "MemoryBuffer_range pBegin e h = \<lparr>mb_end = e, mb_position = pBegin, store = h\<rparr>"

definition MemoryBuffer_sized :: "ptr \<Rightarrow> size_t \<Rightarrow> bytes \<Rightarrow> MemoryBuffer" where
  "MemoryBuffer_sized pBegin sz h = \<lparr>mb_end = pBegin + sz, mb_position = pBegin, store = h\<rparr>"

definition Position :: "MemoryBuffer \<Rightarrow> ptr" where
  "Position mb = mb_position mb"

definition SizeLeft :: "MemoryBuffer \<Rightarrow> size_t" where
  "SizeLeft mb = mb_end mb - mb_position mb"

definition Good :: "MemoryBuffer \<Rightarrow> bool" where
  "Good mb = (mb_end mb \<noteq> 0 \<and> mb_position mb \<noteq> 0)"

text \<open>\<^verbatim>\<open>operator>>(T& t)\<close>. The result \<open>Some bs\<close> is the new value of \<open>t\<close>; \<open>None\<close> means
  \<open>t\<close> was not touched.\<close>

definition op_extract :: "size_t \<Rightarrow> MemoryBuffer \<Rightarrow> byte list option \<times> MemoryBuffer" where
  "op_extract sizeof_T mb =
     (if SizeLeft mb \<ge> sizeof_T
      then (Some (load (store mb) (mb_position mb) sizeof_T),
            mb\<lparr>mb_position := mb_position mb + sizeof_T\<rparr>)
      else (None, mb\<lparr>mb_end := 0, mb_position := 0\<rparr>))"

text \<open>\<^verbatim>\<open>Write(T& t)\<close>.\<close>

definition Write_T :: "byte list \<Rightarrow> MemoryBuffer \<Rightarrow> MemoryBuffer" where
  "Write_T t mb =
     (if SizeLeft mb \<ge> of_nat (length t)
      then mb\<lparr>store := copy_in (store mb) (mb_position mb) t (of_nat (length t)),
              mb_position := mb_position mb + of_nat (length t)\<rparr>
      else mb\<lparr>mb_end := 0, mb_position := 0\<rparr>)"

text \<open>\<^verbatim>\<open>Write(void* pData, size_t size)\<close>.\<close>

definition Write :: "ptr \<Rightarrow> size_t \<Rightarrow> MemoryBuffer \<Rightarrow> MemoryBuffer" where
  "Write pBytes sz mb =
     (if SizeLeft mb \<ge> sz
      then mb\<lparr>store := copy_bytes (store mb) (mb_position mb) pBytes sz,
              mb_position := mb_position mb + sz\<rparr>
      else mb\<lparr>mb_end := 0, mb_position := 0\<rparr>)"

text \<open>\<^verbatim>\<open>Read(T& t)\<close>.\<close>

definition Read :: "size_t \<Rightarrow> MemoryBuffer \<Rightarrow> byte list option \<times> MemoryBuffer" where
  "Read sizeof_T mb =
     (if SizeLeft mb \<ge> sizeof_T
      then (Some (load (store mb) (mb_position mb) sizeof_T),
            mb\<lparr>mb_position := mb_position mb + sizeof_T\<rparr>)
      else (None, mb\<lparr>mb_end := 0, mb_position := 0\<rparr>))"

definition Skip :: "size_t \<Rightarrow> MemoryBuffer \<Rightarrow> MemoryBuffer" where
  "Skip numBytes mb =
     (if SizeLeft mb \<ge> numBytes
      then mb\<lparr>mb_position := mb_position mb + numBytes\<rparr>
      else mb\<lparr>mb_end := 0, mb_position := 0\<rparr>)"

text \<open>\<^verbatim>\<open>ReserveArrayUnaligned<T>(numElements)\<close>.\<close>

definition ReserveArrayUnaligned :: "size_t \<Rightarrow> size_t \<Rightarrow> MemoryBuffer \<Rightarrow> ptr \<times> MemoryBuffer" where
  "ReserveArrayUnaligned sizeof_T numElems mb =
     (if SizeLeft mb \<ge> numElems * sizeof_T
      then (mb_position mb, mb\<lparr>mb_position := mb_position mb + numElems * sizeof_T\<rparr>)
      else (0, mb\<lparr>mb_end := 0, mb_position := 0\<rparr>))"

text \<open>\<^verbatim>\<open>NewUnaligned<T>(args...)\<close>: \<open>obj\<close> is the object that \<^verbatim>\<open>T(args...)\<close> constructs in
  place.\<close>

definition NewUnaligned :: "byte list \<Rightarrow> MemoryBuffer \<Rightarrow> ptr \<times> MemoryBuffer" where
  "NewUnaligned obj mb =
     (if SizeLeft mb \<ge> of_nat (length obj)
      then (mb_position mb,
            mb\<lparr>mb_position := mb_position mb + of_nat (length obj),
               store := copy_in (store mb) (mb_position mb) obj (of_nat (length obj))\<rparr>)
      else (0, mb\<lparr>mb_end := 0, mb_position := 0\<rparr>))"

text \<open>Sequences of the operations \<^verbatim>\<open>Read\<close>, \<^verbatim>\<open>operator>>\<close>, \<^verbatim>\<open>Write\<close>, \<^verbatim>\<open>Skip\<close>,
  \<^verbatim>\<open>ReserveArrayUnaligned\<close> and \<^verbatim>\<open>NewUnaligned\<close>: the bytes each one asks for, its result and
  the cursor after it.\<close>

datatype buffer_op =
    BRead size_t
  | BExtract size_t
  | BWrite_T "byte list"
  | BWrite ptr size_t
  | BSkip size_t
  | BReserveArray size_t size_t
  | BNew "byte list"

datatype buffer_result = Value "byte list option" | Pointer ptr | Nothing

text \<open>The number of bytes an operation compares with \<^verbatim>\<open>SizeLeft()\<close>, as the source computes
  it in \<^verbatim>\<open>size_t\<close>: for \<^verbatim>\<open>ReserveArrayUnaligned\<close> the 64-bit product
  \<^verbatim>\<open>numElements * sizeof(T)\<close>.\<close>

fun checked_size :: "buffer_op \<Rightarrow> size_t" where
  "checked_size (BRead sizeof_T) = sizeof_T"
| "checked_size (BExtract sizeof_T) = sizeof_T"
| "checked_size (BWrite_T t) = of_nat (length t)"
| "checked_size (BWrite pBytes sz) = sz"
| "checked_size (BSkip numBytes) = numBytes"
| "checked_size (BReserveArray sizeof_T numElems) = numElems * sizeof_T"
| "checked_size (BNew obj) = of_nat (length obj)"

fun exec_op :: "buffer_op \<Rightarrow> MemoryBuffer \<Rightarrow> buffer_result \<times> MemoryBuffer" where
  "exec_op (BRead sizeof_T) mb = (case Read sizeof_T mb of (t, mb') \<Rightarrow> (Value t, mb'))"
| "exec_op (BExtract sizeof_T) mb = (case op_extract sizeof_T mb of (t, mb') \<Rightarrow> (Value t, mb'))"
| "exec_op (BWrite_T t) mb = (Nothing, Write_T t mb)"
| "exec_op (BWrite pBytes sz) mb = (Nothing, Write pBytes sz mb)"
| "exec_op (BSkip numBytes) mb = (Nothing, Skip numBytes mb)"
| "exec_op (BReserveArray sizeof_T numElems) mb =
     (case ReserveArrayUnaligned sizeof_T numElems mb of (p, mb') \<Rightarrow> (Pointer p, mb'))"
| "exec_op (BNew obj) mb = (case NewUnaligned obj mb of (p, mb') \<Rightarrow> (Pointer p, mb'))"

fun exec_ops :: "buffer_op list \<Rightarrow> MemoryBuffer \<Rightarrow> MemoryBuffer" where
  "exec_ops [] mb = mb"
| "exec_ops (x # xs) mb = exec_ops xs (snd (exec_op x mb))"

fun results :: "buffer_op list \<Rightarrow> MemoryBuffer \<Rightarrow> buffer_result list" where
  "results [] mb = []"
| "results (x # xs) mb = fst (exec_op x mb) # results xs (snd (exec_op x mb))"

text \<open>What the code of an operation does when its check passes: the store afterwards and the
  result.\<close>

fun performed_store :: "buffer_op \<Rightarrow> MemoryBuffer \<Rightarrow> bytes" where
  "performed_store (BWrite_T t) mb = copy_in (store mb) (mb_position mb) t (of_nat (length t))"
| "performed_store (BWrite pBytes sz) mb = copy_bytes (store mb) (mb_position mb) pBytes sz"
| "performed_store (BNew obj) mb = copy_in (store mb) (mb_position mb) obj (of_nat (length obj))"
| "performed_store x mb = store mb"

fun performed_result :: "buffer_op \<Rightarrow> MemoryBuffer \<Rightarrow> buffer_result" where
  "performed_result (BRead sizeof_T) mb = Value (Some (load (store mb) (mb_position mb) sizeof_T))"
| "performed_result (BExtract sizeof_T) mb = Value (Some (load (store mb) (mb_position mb) sizeof_T))"
| "performed_result (BReserveArray sizeof_T numElems) mb = Pointer (mb_position mb)"
| "performed_result (BNew obj) mb = Pointer (mb_position mb)"
| "performed_result x mb = Nothing"

fun failed_result :: "buffer_op \<Rightarrow> buffer_result" where
  "failed_result (BRead sizeof_T) = Value None"
| "failed_result (BExtract sizeof_T) = Value None"
| "failed_result (BReserveArray sizeof_T numElems) = Pointer 0"
| "failed_result (BNew obj) = Pointer 0"
| "failed_result x = Nothing"

text \<open>
  The spec's side of an operation, for comparison with the code. \<open>required\<close> is the number
  of bytes the operation needs, as a number: \<open>n \<times> sizeof(T)\<close> for an array of \<open>n\<close> elements,
  without wrap-around. \<open>source_byte\<close> is the byte that belongs at offset \<open>i\<close> from the old
  position once the operation is done: the \<open>i\<close>-th byte of the value written, or what was
  there when the operation writes nothing. \<open>expected_result\<close> is what the caller gets: the
  bytes from the old position on for a read, the old position for a reservation.
\<close>

fun required :: "buffer_op \<Rightarrow> nat" where
  "required (BRead sizeof_T) = unat sizeof_T"
| "required (BExtract sizeof_T) = unat sizeof_T"
| "required (BWrite_T t) = length t"
| "required (BWrite pBytes sz) = unat sz"
| "required (BSkip numBytes) = unat numBytes"
| "required (BReserveArray sizeof_T numElems) = unat numElems * unat sizeof_T"
| "required (BNew obj) = length obj"

fun source_byte :: "buffer_op \<Rightarrow> MemoryBuffer \<Rightarrow> nat \<Rightarrow> byte" where
  "source_byte (BWrite_T t) mb i = t ! i"
| "source_byte (BWrite pBytes sz) mb i = store mb (pBytes + of_nat i)"
| "source_byte (BNew obj) mb i = obj ! i"
| "source_byte x mb i = store mb (mb_position mb + of_nat i)"

fun expected_result :: "buffer_op \<Rightarrow> MemoryBuffer \<Rightarrow> buffer_result" where
  "expected_result (BRead sizeof_T) mb =
     Value (Some (map (\<lambda>i. store mb (mb_position mb + of_nat i)) [0 ..< unat sizeof_T]))"
| "expected_result (BExtract sizeof_T) mb =
     Value (Some (map (\<lambda>i. store mb (mb_position mb + of_nat i)) [0 ..< unat sizeof_T]))"
| "expected_result (BReserveArray sizeof_T numElems) mb = Pointer (mb_position mb)"
| "expected_result (BNew obj) mb = Pointer (mb_position mb)"
| "expected_result x mb = Nothing"

text \<open>The poisoned state: both pointers cleared. A result carries nothing when no byte was
  read and no pointer into the buffer was handed out.\<close>

definition poisoned :: "MemoryBuffer \<Rightarrow> bool" where
  "poisoned mb = (mb_end mb = 0 \<and> mb_position mb = 0)"

fun carries_nothing :: "buffer_result \<Rightarrow> bool" where
  "carries_nothing (Value None) = True"
| "carries_nothing (Value (Some bs)) = (bs = [])"
| "carries_nothing (Pointer p) = (p = 0)"
| "carries_nothing Nothing = True"

text \<open>A store of zero bytes, for concrete runs.\<close>

definition zeros :: "bytes" where
  "zeros a = 0"

section \<open>Copying cells\<close>

lemma memmove_0: "memmove h d s 0 = h"
  by (rule ext) (auto simp: memmove_def)

lemma memcpy_0: "memcpy h d s 0 = h"
  by (simp add: memcpy_def memmove_0)

lemma memmove_inside:
  "dst \<le> a \<Longrightarrow> a < dst + n \<Longrightarrow> memmove h dst src n a = h (src + (a - dst))"
  by (simp add: memmove_def)

lemma memmove_outside:
  "a < dst \<or> dst + n \<le> a \<Longrightarrow> memmove h dst src n a = h a"
  by (auto simp: memmove_def)

lemma take_elems_grown:
  assumes "n \<le> m"
  shows "take n (map (\<lambda>i. memcpy h a p n (a + i)) [0..<m]) = map (\<lambda>i. h (p + i)) [0..<n]"
  using assms by (simp add: take_map memcpy_def memmove_inside min_def)

lemma upt5: "[0..<5] = [0, 1, 2, 3, 4]"
  by (simp add: upt_rec)

section \<open>Unfolding the operations\<close>

lemma Expand_refused:
  "alloc_fails (pAllocator s) \<Longrightarrow> Expand c s = (False, s\<lparr>pAllocator := tl (pAllocator s)\<rparr>)"
  by (auto simp: Expand_def Allocate_def alloc_fails_def split: list.splits)

lemma Expand_granted:
  "\<not> alloc_fails (pAllocator s) \<Longrightarrow>
   Expand c s = (True, s\<lparr>mem := memcpy (mem s) (hd (pAllocator s)) (pData s) (unat (numElements s)),
                         pAllocator := tl (pAllocator s), capacity := c, pData := hd (pAllocator s)\<rparr>)"
  by (auto simp: Expand_def Allocate_def Free_def alloc_fails_def split: list.splits)

lemma hd_granted: "\<not> alloc_fails al \<Longrightarrow> 0 < hd al"
  by (auto simp: alloc_fails_def split: list.splits)

lemma Double_refused:
  "alloc_fails (pAllocator s) \<Longrightarrow> Double s = (False, s\<lparr>pAllocator := tl (pAllocator s)\<rparr>)"
  by (simp add: Double_def Expand_refused)

lemma Add_fits:
  "numElements s < capacity s \<Longrightarrow>
   Add t s = (True, s\<lparr>mem := (mem s)(pData s + unat (numElements s) := t),
                      numElements := numElements s + 1\<rparr>)"
  by (simp add: Add.simps)

lemma Add_grows:
  "\<not> numElements s < capacity s \<Longrightarrow> Double s = (True, s') \<Longrightarrow> Add t s = Add t s'"
  by (subst Add.simps) simp

lemma Add_refused:
  "\<not> numElements s < capacity s \<Longrightarrow> Double s = (False, s') \<Longrightarrow> Add t s = (False, s')"
  by (subst Add.simps) simp

lemma Reserve_fits:
  "num \<noteq> 0 \<Longrightarrow> numElements s + num \<le> capacity s \<Longrightarrow>
   Reserve num s = (pData s + unat (numElements s), s\<lparr>numElements := numElements s + num\<rparr>)"
  by (simp add: Reserve.simps)

lemma Reserve_grows:
  "num \<noteq> 0 \<Longrightarrow> \<not> numElements s + num \<le> capacity s \<Longrightarrow>
   Expand (numElements s + num) s = (True, s') \<Longrightarrow> Reserve num s = Reserve num s'"
  by (subst Reserve.simps) simp

lemma Reserve_refused:
  "num \<noteq> 0 \<Longrightarrow> \<not> numElements s + num \<le> capacity s \<Longrightarrow>
   Expand (numElements s + num) s = (False, s') \<Longrightarrow> Reserve num s = (0, s')"
  by (subst Reserve.simps) simp

lemma Insert_fits:
  "num \<noteq> 0 \<Longrightarrow> pSrc \<noteq> 0 \<Longrightarrow> position \<le> numElements s \<Longrightarrow>
   numElements s + num \<le> capacity s \<Longrightarrow>
   Insert position pSrc num s =
     (pData s + unat position,
      s\<lparr>mem := memcpy (memmove (mem s)
                         (pData s + unat (numElements s) + unat num - unat (numElements s - position))
                         (pData s + unat position) (unat (numElements s - position)))
                  (pData s + unat position) pSrc (unat num),
        numElements := numElements s + num\<rparr>)"
  by (simp add: Insert.simps begin_ptr_def end_ptr_def Size_def Let_def not_less [symmetric])

lemma Insert_grows:
  "num \<noteq> 0 \<Longrightarrow> pSrc \<noteq> 0 \<Longrightarrow> position \<le> numElements s \<Longrightarrow>
   \<not> numElements s + num \<le> capacity s \<Longrightarrow>
   Expand (numElements s + num) s = (True, s') \<Longrightarrow>
   Insert position pSrc num s = Insert position pSrc num s'"
  by (subst Insert.simps) (simp add: not_less [symmetric])

lemma Insert_refused:
  "num \<noteq> 0 \<Longrightarrow> pSrc \<noteq> 0 \<Longrightarrow> position \<le> numElements s \<Longrightarrow>
   \<not> numElements s + num \<le> capacity s \<Longrightarrow>
   Expand (numElements s + num) s = (False, s') \<Longrightarrow> Insert position pSrc num s = (0, s')"
  by (subst Insert.simps) (simp add: not_less [symmetric])

section \<open>Growth\<close>

lemma Add_on_full:
  assumes "\<not> alloc_fails (pAllocator s)" "numElements s = capacity s" "unat (capacity s) < 2 ^ 31"
  shows "\<exists>s'. Add t s = (True, s') \<and>
            capacity s' = (if capacity s = 0 then 4 else 2 * capacity s) \<and>
            unat (capacity s') = (if capacity s = 0 then 4 else 2 * unat (capacity s)) \<and>
            numElements s' = numElements s + 1 \<and> pData s' = hd (pAllocator s)"
proof -
  let ?c = "if capacity s = 0 then 4 else 2 * capacity s"
  have "\<exists>s1. Double s = (True, s1) \<and> capacity s1 = ?c \<and> numElements s1 = numElements s \<and>
          pData s1 = hd (pAllocator s)"
    using assms(1) by (cases "capacity s = 0") (simp_all add: Double_def Expand_granted)
  then obtain s1 where d: "Double s = (True, s1)" and c1: "capacity s1 = ?c"
    and n1: "numElements s1 = numElements s" and p1: "pData s1 = hd (pAllocator s)"
    by blast
  have u: "unat ?c = (if capacity s = 0 then 4 else 2 * unat (capacity s))"
    using assms(3) by (simp add: unat_word_ariths)
  have "unat (numElements s1) < unat (capacity s1)"
    using assms(2,3) u n1 c1 by (auto simp: unat_gt_0 split: if_splits)
  then have lt: "numElements s1 < capacity s1"
    by (simp add: word_less_nat_alt)
  have "Add t s = Add t s1"
    using assms(2) d by (simp add: Add_grows)
  then show ?thesis
    using lt c1 n1 u p1 by (simp add: Add_fits)
qed

lemma Reserve_after_growth:
  assumes "num \<noteq> 0" "\<not> numElements s + num \<le> capacity s" "\<not> alloc_fails (pAllocator s)"
  shows "Reserve num s =
           (hd (pAllocator s) + unat (numElements s),
            s\<lparr>mem := memcpy (mem s) (hd (pAllocator s)) (pData s) (unat (numElements s)),
              pAllocator := tl (pAllocator s), capacity := numElements s + num,
              pData := hd (pAllocator s), numElements := numElements s + num\<rparr>)"
proof -
  let ?s1 = "s\<lparr>mem := memcpy (mem s) (hd (pAllocator s)) (pData s) (unat (numElements s)),
              pAllocator := tl (pAllocator s), capacity := numElements s + num,
              pData := hd (pAllocator s)\<rparr>"
  have "Reserve num s = Reserve num ?s1"
    using assms by (simp add: Reserve_grows Expand_granted)
  also have "\<dots> = (pData ?s1 + unat (numElements ?s1), ?s1\<lparr>numElements := numElements ?s1 + num\<rparr>)"
    using assms(1) by (intro Reserve_fits) simp_all
  finally show ?thesis by simp
qed

lemma Insert_after_growth:
  assumes "num \<noteq> 0" "pSrc \<noteq> 0" "position \<le> numElements s"
    "\<not> numElements s + num \<le> capacity s" "\<not> alloc_fails (pAllocator s)"
  shows "\<exists>s'. Insert position pSrc num s = (hd (pAllocator s) + unat position, s') \<and>
          capacity s' = numElements s + num \<and> numElements s' = numElements s + num \<and>
          pData s' = hd (pAllocator s)"
proof -
  let ?s1 = "s\<lparr>mem := memcpy (mem s) (hd (pAllocator s)) (pData s) (unat (numElements s)),
              pAllocator := tl (pAllocator s), capacity := numElements s + num,
              pData := hd (pAllocator s)\<rparr>"
  have "Insert position pSrc num s = Insert position pSrc num ?s1"
    using assms by (simp add: Insert_grows Expand_granted)
  moreover have "\<exists>s'. Insert position pSrc num ?s1 = (pData ?s1 + unat position, s') \<and>
          capacity s' = capacity ?s1 \<and> numElements s' = numElements ?s1 + num \<and> pData s' = pData ?s1"
    using assms(1,2,3) by (subst Insert_fits) simp_all
  ultimately show ?thesis by simp
qed

text \<open>
  C4, as the code has it. Only \<^verbatim>\<open>Add\<close> grows by the doubling rule of \<^verbatim>\<open>Double()\<close>: on a full
  array of capacity below \<open>2^31\<close> whose request is granted, the new capacity is 4 when the old one
  is 0 and twice the old one otherwise. \<^verbatim>\<open>Reserve(num)\<close> and \<^verbatim>\<open>Insert(position, pSrc, num)\<close>
  call \<^verbatim>\<open>Expand(numElements + num)\<close>: when they grow, the new capacity is exactly the old count
  plus \<open>num\<close>.
\<close>

theorem growth_sets_capacity:
  assumes "\<not> alloc_fails (pAllocator s)"
  shows "(numElements s = capacity s \<and> unat (capacity s) < 2 ^ 31 \<longrightarrow>
            (\<exists>s'. Add t s = (True, s') \<and>
                  unat (capacity s') = (if capacity s = 0 then 4 else 2 * unat (capacity s))))
       \<and> (num \<noteq> 0 \<and> \<not> numElements s + num \<le> capacity s \<longrightarrow>
            (\<exists>r s'. Reserve num s = (r, s') \<and> r \<noteq> 0 \<and> capacity s' = numElements s + num))
       \<and> (num \<noteq> 0 \<and> pSrc \<noteq> 0 \<and> position \<le> numElements s \<and>
          \<not> numElements s + num \<le> capacity s \<longrightarrow>
            (\<exists>r s'. Insert position pSrc num s = (r, s') \<and> r \<noteq> 0 \<and>
                    capacity s' = numElements s + num))"
proof (intro conjI impI)
  assume "numElements s = capacity s \<and> unat (capacity s) < 2 ^ 31"
  then show "\<exists>s'. Add t s = (True, s') \<and>
                  unat (capacity s') = (if capacity s = 0 then 4 else 2 * unat (capacity s))"
    using Add_on_full [OF assms, of t] by blast
next
  assume "num \<noteq> 0 \<and> \<not> numElements s + num \<le> capacity s"
  then show "\<exists>r s'. Reserve num s = (r, s') \<and> r \<noteq> 0 \<and> capacity s' = numElements s + num"
    using assms hd_granted [of "pAllocator s"] by (simp add: Reserve_after_growth)
next
  assume a: "num \<noteq> 0 \<and> pSrc \<noteq> 0 \<and> position \<le> numElements s \<and>
             \<not> numElements s + num \<le> capacity s"
  then obtain s' where "Insert position pSrc num s = (hd (pAllocator s) + unat position, s')"
    "capacity s' = numElements s + num"
    using Insert_after_growth [of num pSrc position s] assms by blast
  then show "\<exists>r s'. Insert position pSrc num s = (r, s') \<and> r \<noteq> 0 \<and>
                    capacity s' = numElements s + num"
    using assms hd_granted [of "pAllocator s"] by simp
qed

text \<open>A run of the theorem: an array with one element in a block of one cell at address 100,
  and an allocator that grants a block at 300; the source buffer is at 200.\<close>

theorem growth_sets_capacity_witness:
  "\<not> alloc_fails [300] \<and>
   (\<exists>s'. Add 7 \<lparr>TSize = 4, pAllocator = [300], pData = 100, numElements = 1, capacity = 1,
                 mem = blank\<rparr> = (True, s') \<and> unat (capacity s') = 2) \<and>
   (\<exists>r s'. Reserve 2 \<lparr>TSize = 4, pAllocator = [300], pData = 100, numElements = 1, capacity = 1,
                 mem = blank\<rparr> = (r, s') \<and> r \<noteq> 0 \<and> capacity s' = 3) \<and>
   (\<exists>r s'. Insert 0 200 2 \<lparr>TSize = 4, pAllocator = [300], pData = 100, numElements = 1,
                 capacity = 1, mem = blank\<rparr> = (r, s') \<and> r \<noteq> 0 \<and> capacity s' = 3)"
  using growth_sets_capacity [where s = "\<lparr>TSize = 4, pAllocator = [300], pData = 100,
      numElements = 1, capacity = 1, mem = blank\<rparr>" and t = 7 and num = 2 and pSrc = 200
      and position = 0]
  by (simp add: alloc_fails_def word_le_nat_alt)

text \<open>C4 as stated fails: \<^verbatim>\<open>Reserve(1)\<close> on a new, empty array grows the capacity from 0 to 1,
  not to \<open>max(4, 2 * 0) = 4\<close>.\<close>

theorem Reserve_growth_counterexample:
  "capacity (ArrayList_new 4 [100] blank) = 0 \<and>
   fst (Reserve 1 (ArrayList_new 4 [100] blank)) \<noteq> 0 \<and>
   capacity (snd (Reserve 1 (ArrayList_new 4 [100] blank))) = 1"
  by (simp add: Reserve.simps ArrayList_new_def Expand_def Allocate_def Free_def ElemSize_def)

section \<open>Refused growth\<close>

lemma Add_full_granted:
  assumes "valid s" "unat (capacity s) < 2 ^ 31" "\<not> numElements s < capacity s"
    "\<not> alloc_fails (pAllocator s)"
  shows "fst (Add t s)"
proof -
  have "numElements s = capacity s"
    using assms(1,3) by (auto simp: valid_def)
  then show ?thesis
    using Add_on_full [OF assms(4) _ assms(2), of t] by auto
qed


text \<open>
  C5, as the code has it. \<^verbatim>\<open>Add\<close> on a valid array of capacity below \<open>2^31\<close> returns false
  exactly when the array is full and the allocator refuses the request, and whenever it
  returns false the data pointer, the count, the capacity, the store and so the elements are
  what they were before the call. \<^verbatim>\<open>Reserve\<close> and \<^verbatim>\<open>Insert\<close> ask the allocator at most once:
  when they have to grow and the request is refused, they return null and leave the array as
  it was.
\<close>

theorem failed_growth_leaves_array:
  "(valid s \<and> unat (capacity s) < 2 ^ 31 \<longrightarrow>
      (\<not> fst (Add t s) \<longleftrightarrow> \<not> numElements s < capacity s \<and> alloc_fails (pAllocator s)) \<and>
      (\<not> fst (Add t s) \<longrightarrow>
         pData (snd (Add t s)) = pData s \<and> numElements (snd (Add t s)) = numElements s \<and>
         capacity (snd (Add t s)) = capacity s \<and> mem (snd (Add t s)) = mem s \<and>
         elems (snd (Add t s)) = elems s))
   \<and> (num \<noteq> 0 \<and> \<not> numElements s + num \<le> capacity s \<and> alloc_fails (pAllocator s) \<longrightarrow>
        (\<exists>s'. Reserve num s = (0, s') \<and> pData s' = pData s \<and> numElements s' = numElements s \<and>
              capacity s' = capacity s \<and> mem s' = mem s \<and> elems s' = elems s))
   \<and> (num \<noteq> 0 \<and> pSrc \<noteq> 0 \<and> position \<le> numElements s \<and>
      \<not> numElements s + num \<le> capacity s \<and> alloc_fails (pAllocator s) \<longrightarrow>
        (\<exists>s'. Insert position pSrc num s = (0, s') \<and> pData s' = pData s \<and>
              numElements s' = numElements s \<and> capacity s' = capacity s \<and>
              mem s' = mem s \<and> elems s' = elems s))"
proof (intro conjI impI)
  assume b: "valid s \<and> unat (capacity s) < 2 ^ 31"
  consider (fits) "numElements s < capacity s"
    | (refused) "\<not> numElements s < capacity s" "alloc_fails (pAllocator s)"
    | (granted) "\<not> numElements s < capacity s" "\<not> alloc_fails (pAllocator s)"
    by blast
  then have "(\<not> fst (Add t s) \<longleftrightarrow> \<not> numElements s < capacity s \<and> alloc_fails (pAllocator s)) \<and>
      (\<not> fst (Add t s) \<longrightarrow>
         pData (snd (Add t s)) = pData s \<and> numElements (snd (Add t s)) = numElements s \<and>
         capacity (snd (Add t s)) = capacity s \<and> mem (snd (Add t s)) = mem s \<and>
         elems (snd (Add t s)) = elems s)"
  proof cases
    case fits
    then show ?thesis by (simp add: Add_fits)
  next
    case refused
    then show ?thesis by (simp add: Add_refused Double_refused elems_def)
  next
    case granted
    then show ?thesis using b Add_full_granted [of s t] by simp
  qed
  then show "\<not> fst (Add t s) \<longleftrightarrow> \<not> numElements s < capacity s \<and> alloc_fails (pAllocator s)"
    and "\<not> fst (Add t s) \<Longrightarrow> pData (snd (Add t s)) = pData s"
    and "\<not> fst (Add t s) \<Longrightarrow> numElements (snd (Add t s)) = numElements s"
    and "\<not> fst (Add t s) \<Longrightarrow> capacity (snd (Add t s)) = capacity s"
    and "\<not> fst (Add t s) \<Longrightarrow> mem (snd (Add t s)) = mem s"
    and "\<not> fst (Add t s) \<Longrightarrow> elems (snd (Add t s)) = elems s"
    by blast+
next
  assume "num \<noteq> 0 \<and> \<not> numElements s + num \<le> capacity s \<and> alloc_fails (pAllocator s)"
  then show "\<exists>s'. Reserve num s = (0, s') \<and> pData s' = pData s \<and> numElements s' = numElements s \<and>
              capacity s' = capacity s \<and> mem s' = mem s \<and> elems s' = elems s"
    by (simp add: Reserve_refused Expand_refused elems_def)
next
  assume "num \<noteq> 0 \<and> pSrc \<noteq> 0 \<and> position \<le> numElements s \<and>
      \<not> numElements s + num \<le> capacity s \<and> alloc_fails (pAllocator s)"
  then show "\<exists>s'. Insert position pSrc num s = (0, s') \<and> pData s' = pData s \<and>
              numElements s' = numElements s \<and> capacity s' = capacity s \<and>
              mem s' = mem s \<and> elems s' = elems s"
    by (simp add: Insert_refused Expand_refused elems_def)
qed


theorem failed_growth_leaves_array_witness:
  "valid \<lparr>TSize = 4, pAllocator = [], pData = 100, numElements = 1, capacity = 1, mem = blank\<rparr> \<and>
   alloc_fails [] \<and>
   \<not> fst (Add 7 \<lparr>TSize = 4, pAllocator = [], pData = 100, numElements = 1, capacity = 1,
                  mem = blank\<rparr>) \<and>
   pData (snd (Add 7 \<lparr>TSize = 4, pAllocator = [], pData = 100, numElements = 1, capacity = 1,
                  mem = blank\<rparr>)) = 100 \<and>
   capacity (snd (Add 7 \<lparr>TSize = 4, pAllocator = [], pData = 100, numElements = 1, capacity = 1,
                  mem = blank\<rparr>)) = 1 \<and>
   elems (snd (Add 7 \<lparr>TSize = 4, pAllocator = [], pData = 100, numElements = 1, capacity = 1,
                  mem = blank\<rparr>)) = [0] \<and>
   (\<exists>s'. Reserve 2 \<lparr>TSize = 4, pAllocator = [], pData = 100, numElements = 1, capacity = 1,
                 mem = blank\<rparr> = (0, s') \<and> pData s' = 100 \<and> numElements s' = 1 \<and>
          capacity s' = 1 \<and> mem s' = blank \<and> elems s' = [0]) \<and>
   (\<exists>s'. Insert 0 200 2 \<lparr>TSize = 4, pAllocator = [], pData = 100, numElements = 1,
                 capacity = 1, mem = blank\<rparr> = (0, s') \<and> pData s' = 100 \<and> numElements s' = 1 \<and>
          capacity s' = 1 \<and> mem s' = blank \<and> elems s' = [0])"
proof -
  let ?s = "\<lparr>TSize = 4, pAllocator = [], pData = 100, numElements = 1, capacity = 1,
             mem = blank\<rparr>"
  have v: "valid ?s" by (simp add: valid_def)
  have e: "elems ?s = [0]" by (simp add: elems_def blank_def)
  show ?thesis
    using v e failed_growth_leaves_array [where s = ?s and t = 7 and num = 2 and pSrc = 200
        and position = 0]
    by (simp add: alloc_fails_def word_le_nat_alt word_less_nat_alt)
qed


text \<open>C5 as stated fails once \<open>2 * capacity\<close> wraps: on a valid full array of capacity
  \<open>2^31\<close>, \<^verbatim>\<open>Add\<close> is granted \<^verbatim>\<open>Expand(0)\<close>, calls itself, is refused \<^verbatim>\<open>Expand(4)\<close> and
  returns false, with capacity 0 and a new data pointer.\<close>

theorem Add_second_refusal_counterexample:
  "valid \<lparr>TSize = 1, pAllocator = [0x300000000], pData = 0x100000000,
          numElements = 0x80000000, capacity = 0x80000000, mem = blank\<rparr> \<and>
   \<not> fst (Add 7 \<lparr>TSize = 1, pAllocator = [0x300000000], pData = 0x100000000,
                  numElements = 0x80000000, capacity = 0x80000000, mem = blank\<rparr>) \<and>
   capacity (snd (Add 7 \<lparr>TSize = 1, pAllocator = [0x300000000], pData = 0x100000000,
                  numElements = 0x80000000, capacity = 0x80000000, mem = blank\<rparr>)) = 0 \<and>
   pData (snd (Add 7 \<lparr>TSize = 1, pAllocator = [0x300000000], pData = 0x100000000,
                  numElements = 0x80000000, capacity = 0x80000000, mem = blank\<rparr>)) = 0x300000000"
  by (simp add: valid_def Add.simps Double_def Expand_def Allocate_def Free_def ElemSize_def
      word_le_nat_alt word_less_nat_alt)

section \<open>Reserving slots\<close>

text \<open>
  C6, as the code has it. For \<open>num \<ge> 1\<close>, on a valid array and with \<open>count + num\<close> below
  \<open>2^32\<close>: \<^verbatim>\<open>Reserve(num)\<close> returns null exactly when the array has to grow and the allocator
  refuses, and then the array is unchanged; otherwise it returns the address of slot \<open>count\<close> of
  the (possibly new) block, the count grows by \<open>num\<close> within the capacity, and the elements
  that were there are still there.
\<close>

theorem Reserve_nonzero:
  assumes "num \<noteq> 0" "valid s" "unat (numElements s) + unat num < 2 ^ 32"
  shows "(fst (Reserve num s) = 0 \<longleftrightarrow>
            \<not> numElements s + num \<le> capacity s \<and> alloc_fails (pAllocator s))
       \<and> (fst (Reserve num s) = 0 \<longrightarrow>
            pData (snd (Reserve num s)) = pData s \<and>
            numElements (snd (Reserve num s)) = numElements s \<and>
            capacity (snd (Reserve num s)) = capacity s \<and>
            mem (snd (Reserve num s)) = mem s)
       \<and> (fst (Reserve num s) \<noteq> 0 \<longrightarrow>
            fst (Reserve num s) = pData (snd (Reserve num s)) + unat (numElements s) \<and>
            unat (numElements (snd (Reserve num s))) = unat (numElements s) + unat num \<and>
            numElements (snd (Reserve num s)) \<le> capacity (snd (Reserve num s)) \<and>
            take (unat (numElements s)) (elems (snd (Reserve num s))) = elems s)"
proof -
  have sum: "unat (numElements s + num) = unat (numElements s) + unat num"
    using assms(3) by (simp add: unat_add_lem [THEN iffD1])
  consider (fits) "numElements s + num \<le> capacity s"
    | (refused) "\<not> numElements s + num \<le> capacity s" "alloc_fails (pAllocator s)"
    | (granted) "\<not> numElements s + num \<le> capacity s" "\<not> alloc_fails (pAllocator s)"
    by blast
  then show ?thesis
  proof cases
    case fits
    have "0 < unat num" using assms(1) by (simp add: unat_gt_0)
    then have "0 < unat (capacity s)"
      using fits sum by (simp add: word_le_nat_alt)
    then have "pData s \<noteq> 0"
      using assms(2) by (auto simp: valid_def)
    then show ?thesis
      using fits assms(1) sum by (simp add: Reserve_fits elems_def take_map min_def)
  next
    case refused
    then show ?thesis
      using assms(1) by (simp add: Reserve_refused Expand_refused)
  next
    case granted
    then show ?thesis
      using assms(1) sum hd_granted [of "pAllocator s"]
      by (simp add: Reserve_after_growth elems_def take_elems_grown)
  qed
qed

theorem Reserve_nonzero_witness:
  "(2::u32) \<noteq> 0 \<and>
   valid \<lparr>TSize = 4, pAllocator = [300], pData = 100, numElements = 1, capacity = 1, mem = blank\<rparr> \<and>
   fst (Reserve 2 \<lparr>TSize = 4, pAllocator = [300], pData = 100, numElements = 1, capacity = 1,
                   mem = blank\<rparr>) = 301 \<and>
   unat (numElements (snd (Reserve 2 \<lparr>TSize = 4, pAllocator = [300], pData = 100,
                   numElements = 1, capacity = 1, mem = blank\<rparr>))) = 3 \<and>
   fst (Reserve 2 \<lparr>TSize = 4, pAllocator = [], pData = 100, numElements = 1, capacity = 1,
                   mem = blank\<rparr>) = 0 \<and>
   numElements (snd (Reserve 2 \<lparr>TSize = 4, pAllocator = [], pData = 100, numElements = 1,
                   capacity = 1, mem = blank\<rparr>)) = 1"
  using Reserve_nonzero [where num = 2 and s = "\<lparr>TSize = 4, pAllocator = [300], pData = 100,
      numElements = 1, capacity = 1, mem = blank\<rparr>"]
    Reserve_nonzero [where num = 2 and s = "\<lparr>TSize = 4, pAllocator = [], pData = 100,
      numElements = 1, capacity = 1, mem = blank\<rparr>"]
  by (simp add: valid_def Reserve_after_growth alloc_fails_def word_le_nat_alt)

lemma Reserve_zero: "Reserve 0 s = (0, s)"
  by (simp add: Reserve.simps)

text \<open>C6 as stated fails at \<open>num = 0\<close>: \<^verbatim>\<open>Reserve(0)\<close> returns null at once, though no growth
  was needed and the allocator would have granted a request.\<close>

theorem Reserve_zero_counterexample:
  "\<not> alloc_fails [300] \<and>
   fst (Reserve 0 \<lparr>TSize = 4, pAllocator = [300], pData = 100, numElements = 1, capacity = 4,
                   mem = blank\<rparr>) = 0"
  by (simp add: Reserve.simps alloc_fails_def)

section \<open>Five elements added to an empty array\<close>

text \<open>
  C8: on an array created empty, with an allocator that grants its first two requests, five
  calls of \<^verbatim>\<open>Add\<close> all succeed; the capacity is 0 before, 4 after each of the first four calls
  and 8 after the fifth; the count after the k-th call is k; the five elements are stored in
  order.
\<close>

theorem Add_five_from_empty:
  assumes "a1 \<noteq> 0" "a2 \<noteq> 0"
  shows "\<exists>s1 s2 s3 s4 s5.
           capacity (ArrayList_new tsize (a1 # a2 # al) h) = 0 \<and>
           Add t1 (ArrayList_new tsize (a1 # a2 # al) h) = (True, s1) \<and>
             capacity s1 = 4 \<and> numElements s1 = 1 \<and>
           Add t2 s1 = (True, s2) \<and> capacity s2 = 4 \<and> numElements s2 = 2 \<and>
           Add t3 s2 = (True, s3) \<and> capacity s3 = 4 \<and> numElements s3 = 3 \<and>
           Add t4 s3 = (True, s4) \<and> capacity s4 = 4 \<and> numElements s4 = 4 \<and>
           Add t5 s4 = (True, s5) \<and> capacity s5 = 8 \<and> numElements s5 = 5 \<and>
           elems s5 = [t1, t2, t3, t4, t5]"
proof -
  let ?s0 = "ArrayList_new tsize (a1 # a2 # al) h :: 'a ArrayList"
  let ?m1 = "h(a1 := t1)"
  let ?s1 = "\<lparr>TSize = tsize, pAllocator = a2 # al, pData = a1, numElements = 1, capacity = 4, mem = ?m1\<rparr>"
  let ?m2 = "?m1(a1 + 1 := t2)"
  let ?s2 = "?s1\<lparr>mem := ?m2, numElements := 2\<rparr>"
  let ?m3 = "?m2(a1 + 2 := t3)"
  let ?s3 = "?s1\<lparr>mem := ?m3, numElements := 3\<rparr>"
  let ?m4 = "?m3(a1 + 3 := t4)"
  let ?s4 = "?s1\<lparr>mem := ?m4, numElements := 4\<rparr>"
  let ?m5 = "(memcpy ?m4 a2 a1 4)(a2 + 4 := t5)"
  let ?s5 = "\<lparr>TSize = tsize, pAllocator = al, pData = a2, numElements = 5, capacity = 8, mem = ?m5\<rparr>"
  have 0: "capacity ?s0 = 0" by (simp add: ArrayList_new_def)
  have 1: "Add t1 ?s0 = (True, ?s1)"
    using assms(1)
    by (simp add: Add.simps ArrayList_new_def Double_def Expand_def Allocate_def Free_def
        ElemSize_def memcpy_0 word_less_nat_alt)
  have 2: "Add t2 ?s1 = (True, ?s2)"
    by (simp add: Add.simps word_less_nat_alt)
  have 3: "Add t3 ?s2 = (True, ?s3)"
    by (simp add: Add.simps word_less_nat_alt)
  have 4: "Add t4 ?s3 = (True, ?s4)"
    by (simp add: Add.simps word_less_nat_alt)
  have 5: "Add t5 ?s4 = (True, ?s5)"
    using assms(2)
    by (simp add: Add.simps Double_def Expand_def Allocate_def Free_def ElemSize_def word_less_nat_alt)
  have 6: "elems ?s5 = [t1, t2, t3, t4, t5]"
    by (simp add: elems_def upt5 memcpy_def memmove_def)
  show ?thesis
    using 0 1 2 3 4 5 6 by simp
qed

theorem Add_five_from_empty_witness:
  "(100::nat) \<noteq> 0 \<and> (200::nat) \<noteq> 0 \<and>
   (\<exists>s1 s2 s3 s4 s5.
      capacity (ArrayList_new 4 [100, 200] blank) = 0 \<and>
      Add 11 (ArrayList_new 4 [100, 200] blank) = (True, s1) \<and> capacity s1 = 4 \<and> numElements s1 = 1 \<and>
      Add 12 s1 = (True, s2) \<and> capacity s2 = 4 \<and> numElements s2 = 2 \<and>
      Add 13 s2 = (True, s3) \<and> capacity s3 = 4 \<and> numElements s3 = 3 \<and>
      Add 14 s3 = (True, s4) \<and> capacity s4 = 4 \<and> numElements s4 = 4 \<and>
      Add 15 s4 = (True, s5) \<and> capacity s5 = 8 \<and> numElements s5 = 5 \<and>
      elems s5 = [11, 12, 13, 14, 15])"
  using Add_five_from_empty [where ?a1.0 = 100 and ?a2.0 = 200 and al = "[]" and tsize = 4
      and h = blank and ?t1.0 = 11 and ?t2.0 = 12 and ?t3.0 = 13 and ?t4.0 = 14 and ?t5.0 = 15]
  by simp

section \<open>Erasing\<close>

lemma upt4: "[0..<4] = [0, 1, 2, 3]"
  by (simp add: upt_rec)

lemma upt3: "[0..<3] = [0, 1, 2]"
  by (simp add: upt_rec)

lemma upt2: "[0..<2] = [0, 1]"
  by (simp add: upt_rec)

lemma erase_cells:
  assumes "p + n < c"
  shows "map (\<lambda>i. memmove h (b + p) (b + p + n) (c - p - 1) (b + i)) [0..<c - n] =
         take p (map (\<lambda>i. h (b + i)) [0..<c]) @ drop (p + n) (map (\<lambda>i. h (b + i)) [0..<c])"
proof (rule nth_equalityI)
  show "length (map (\<lambda>i. memmove h (b + p) (b + p + n) (c - p - 1) (b + i)) [0..<c - n]) =
        length (take p (map (\<lambda>i. h (b + i)) [0..<c]) @ drop (p + n) (map (\<lambda>i. h (b + i)) [0..<c]))"
    using assms by simp
next
  fix i
  assume "i < length (map (\<lambda>i. memmove h (b + p) (b + p + n) (c - p - 1) (b + i)) [0..<c - n])"
  then have i: "i < c - n" by simp
  show "map (\<lambda>i. memmove h (b + p) (b + p + n) (c - p - 1) (b + i)) [0..<c - n] ! i =
        (take p (map (\<lambda>i. h (b + i)) [0..<c]) @ drop (p + n) (map (\<lambda>i. h (b + i)) [0..<c])) ! i"
  proof (cases "i < p")
    case True
    then show ?thesis
      using i assms by (simp add: nth_append memmove_outside)
  next
    case False
    have "memmove h (b + p) (b + p + n) (c - p - 1) (b + i) = h (b + (p + n + (i - p)))"
    proof (cases "b + i < b + p + (c - p - 1)")
      case True
      then have "memmove h (b + p) (b + p + n) (c - p - 1) (b + i) = h (b + p + n + (b + i - (b + p)))"
        using False by (intro memmove_inside) simp_all
      then show ?thesis using False by (simp add: add.assoc)
    next
      case False
      then have "n = 0" using i assms by arith
      moreover have "memmove h (b + p) (b + p + n) (c - p - 1) (b + i) = h (b + i)"
        using False by (intro memmove_outside) simp
      ultimately show ?thesis using \<open>\<not> i < p\<close> by simp
    qed
    moreover have "n + i < c" using i assms by arith
    ultimately show ?thesis
      using False i assms by (simp add: nth_append min_def)
  qed
qed

lemma Erase_erases:
  assumes "unat position + unat num < unat (numElements s)"
  shows "Erase position num s =
           (pData s + unat position,
            s\<lparr>mem := memmove (mem s) (pData s + unat position) (pData s + unat position + unat num)
                       (unat (numElements s) - unat position - 1),
              numElements := numElements s - num\<rparr>)"
proof -
  have "position < numElements s"
    using assms by (simp add: word_less_nat_alt)
  then show ?thesis
    using assms by (simp add: Erase_def begin_ptr_def end_ptr_def Size_def Let_def)
qed

lemma Erase_rejects:
  assumes "numElements s \<le> position \<or> unat (numElements s) \<le> unat position + unat num"
  shows "Erase position num s = (0, s)"
  using assms
  by (auto simp: Erase_def begin_ptr_def end_ptr_def Size_def Let_def word_le_nat_alt word_less_nat_alt)

lemma unat_minus_le: "unat b \<le> unat a \<Longrightarrow> unat (a - b) = unat a - unat (b::u32)"
  by (simp add: unat_sub word_le_nat_alt)

lemma Erase_elems:
  assumes "unat position + unat num < unat (numElements s)" "Erase position num s = (r, s')"
  shows "elems s' = take (unat position) (elems s) @ drop (unat position + unat num) (elems s)"
    and "unat (numElements s') = unat (numElements s) - unat num"
    and "capacity s' = capacity s" and "pData s' = pData s" and "r = pData s + unat position"
    and "pAllocator s' = pAllocator s"
proof -
  have s': "s' = s\<lparr>mem := memmove (mem s) (pData s + unat position) (pData s + unat position + unat num)
                       (unat (numElements s) - unat position - 1),
              numElements := numElements s - num\<rparr>" and r: "r = pData s + unat position"
    using assms(2) unfolding Erase_erases [OF assms(1)] by auto
  show n: "unat (numElements s') = unat (numElements s) - unat num"
    using assms(1) by (simp add: s' unat_minus_le)
  show "elems s' = take (unat position) (elems s) @ drop (unat position + unat num) (elems s)"
    unfolding elems_def n using erase_cells [OF assms(1), of "mem s" "pData s"] by (simp add: s')
  show "capacity s' = capacity s" "pData s' = pData s" "r = pData s + unat position"
    "pAllocator s' = pAllocator s"
    by (simp_all add: s' r)
qed

lemma valid_nonempty: "valid s \<Longrightarrow> numElements s \<noteq> 0 \<Longrightarrow> pData s \<noteq> 0"
  by (auto simp: valid_def)

lemma Erase_null_unchanged:
  assumes "valid s" "fst (Erase position num s) = 0"
  shows "snd (Erase position num s) = s"
proof (cases "unat position + unat num < unat (numElements s)")
  case True
  then have "numElements s \<noteq> 0" by auto
  then have "pData s \<noteq> 0" using assms(1) by (simp add: valid_nonempty)
  then show ?thesis using assms(2) True by (simp add: Erase_erases)
next
  case False
  then show ?thesis by (simp add: Erase_rejects)
qed

text \<open>
  C1, as the code has it. On a valid array: when \<open>position + num < count\<close>, \<^verbatim>\<open>Erase\<close> closes the
  gap (the elements are those before \<open>position\<close> followed by those from \<open>position + num\<close> on),
  lowers the count by \<open>num\<close>, keeps capacity and block, and returns the non-null address of
  slot \<open>position\<close>. When \<open>position \<ge> count\<close> or \<open>position + num > count\<close> it returns null.
  Whenever it returns null the array is unchanged. Nothing is said here about
  \<open>position + num = count\<close>.
\<close>

theorem Erase_in_range:
  assumes "valid s"
  shows "(unat position + unat num < unat (numElements s) \<longrightarrow>
            (\<exists>s'. Erase position num s = (pData s + unat position, s') \<and>
                  pData s + unat position \<noteq> 0 \<and>
                  elems s' = take (unat position) (elems s) @
                             drop (unat position + unat num) (elems s) \<and>
                  unat (numElements s') = unat (numElements s) - unat num \<and>
                  capacity s' = capacity s \<and> pData s' = pData s))
       \<and> (numElements s \<le> position \<or> unat (numElements s) < unat position + unat num \<longrightarrow>
            Erase position num s = (0, s))
       \<and> (fst (Erase position num s) = 0 \<longrightarrow> snd (Erase position num s) = s)"
proof (intro conjI impI)
  assume a: "unat position + unat num < unat (numElements s)"
  obtain r s' where e: "Erase position num s = (r, s')" by (cases "Erase position num s")
  have "numElements s \<noteq> 0" using a by auto
  then have "pData s \<noteq> 0" using assms by (simp add: valid_nonempty)
  then show "\<exists>s'. Erase position num s = (pData s + unat position, s') \<and>
                  pData s + unat position \<noteq> 0 \<and>
                  elems s' = take (unat position) (elems s) @
                             drop (unat position + unat num) (elems s) \<and>
                  unat (numElements s') = unat (numElements s) - unat num \<and>
                  capacity s' = capacity s \<and> pData s' = pData s"
    using Erase_elems [OF a e] e by simp
next
  assume "numElements s \<le> position \<or> unat (numElements s) < unat position + unat num"
  then show "Erase position num s = (0, s)"
    by (intro Erase_rejects) auto
next
  assume "fst (Erase position num s) = 0"
  with assms show "snd (Erase position num s) = s" by (rule Erase_null_unchanged)
qed

theorem Erase_in_range_witness:
  "valid \<lparr>TSize = 4, pAllocator = [], pData = 100, numElements = 4, capacity = 4,
         mem = blank(100 := 10, 101 := 20, 102 := 30, 103 := 40)\<rparr> \<and>
   (\<exists>s'. Erase 1 2 \<lparr>TSize = 4, pAllocator = [], pData = 100, numElements = 4, capacity = 4,
                    mem = blank(100 := 10, 101 := 20, 102 := 30, 103 := 40)\<rparr> = (101, s') \<and>
          elems s' = [10, 40] \<and> unat (numElements s') = 2) \<and>
   Erase 4 1 \<lparr>TSize = 4, pAllocator = [], pData = 100, numElements = 4, capacity = 4,
              mem = blank(100 := 10, 101 := 20, 102 := 30, 103 := 40)\<rparr> =
     (0, \<lparr>TSize = 4, pAllocator = [], pData = 100, numElements = 4, capacity = 4,
          mem = blank(100 := 10, 101 := 20, 102 := 30, 103 := 40)\<rparr>)"
proof -
  let ?s = "\<lparr>TSize = 4, pAllocator = [], pData = 100, numElements = 4, capacity = 4,
            mem = blank(100 := 10, 101 := 20, 102 := 30, 103 := 40)\<rparr>"
  have v: "valid ?s"
    by (simp add: valid_def)
  have e: "elems ?s = [10, 20, 30, 40]"
    by (simp add: elems_def upt4)
  show ?thesis
    using v e Erase_in_range [OF v, where position = 1 and num = 2]
      Erase_in_range [OF v, where position = 4 and num = 1]
    by (auto simp: word_le_nat_alt)
qed

text \<open>C1 as stated fails: with one element, \<^verbatim>\<open>Erase(0, 2)\<close> has \<open>position < count\<close> and
  \<open>num \<ge> 1\<close>, yet it returns null and erases nothing.\<close>

theorem Erase_past_end_counterexample:
  "(0::u32) < numElements \<lparr>TSize = 4, pAllocator = [], pData = 100, numElements = 1, capacity = 4,
                           mem = blank(100 := 10)\<rparr> \<and>
   (1::u32) \<le> 2 \<and>
   Erase 0 2 \<lparr>TSize = 4, pAllocator = [], pData = 100, numElements = 1, capacity = 4,
              mem = blank(100 := 10)\<rparr> =
     (0, \<lparr>TSize = 4, pAllocator = [], pData = 100, numElements = 1, capacity = 4,
          mem = blank(100 := 10)\<rparr>)"
  by (simp add: Erase_def begin_ptr_def end_ptr_def Size_def word_le_nat_alt word_less_nat_alt)

section \<open>Erasing and inserting again\<close>

lemma insert_cells:
  assumes "p \<le> c" "src + n \<le> b + p + n \<or> b + c + n \<le> src"
  shows "map (\<lambda>i. memcpy (memmove h (b + p + n) (b + p) (c - p)) (b + p) src n (b + i)) [0..<c + n] =
         take p (map (\<lambda>i. h (b + i)) [0..<c]) @ map (\<lambda>i. h (src + i)) [0..<n] @
         drop p (map (\<lambda>i. h (b + i)) [0..<c])"
    (is "?l = ?r")
proof (rule nth_equalityI)
  show "length ?l = length ?r"
    using assms(1) by simp
next
  fix i
  assume "i < length ?l"
  then have i: "i < c + n" by simp
  let ?moved = "memmove h (b + p + n) (b + p) (c - p)"
  consider (before) "i < p" | (new) "p \<le> i" "i < p + n" | (after) "p + n \<le> i"
    by linarith
  then have "memcpy ?moved (b + p) src n (b + i) = ?r ! i"
  proof cases
    case before
    then have "memcpy ?moved (b + p) src n (b + i) = h (b + i)"
      by (simp add: memcpy_def memmove_outside)
    then show ?thesis
      using before assms(1) by (simp add: nth_append)
  next
    case new
    then have "memcpy ?moved (b + p) src n (b + i) = ?moved (src + (b + i - (b + p)))"
      unfolding memcpy_def by (intro memmove_inside) simp_all
    also have "\<dots> = h (src + (i - p))"
      using new assms(2) by (subst memmove_outside) auto
    finally have "memcpy ?moved (b + p) src n (b + i) = h (src + (i - p))" .
    moreover have "i - p < n" using new by arith
    ultimately show ?thesis
      using new assms(1) by (simp add: nth_append min_def)
  next
    case after
    then have "memcpy ?moved (b + p) src n (b + i) = ?moved (b + i)"
      by (simp add: memcpy_def memmove_outside)
    also have "\<dots> = h (b + p + (b + i - (b + p + n)))"
      using after i assms(1) by (intro memmove_inside) simp_all
    also have "\<dots> = h (b + (i - n))"
      using after by simp
    finally have "memcpy ?moved (b + p) src n (b + i) = h (b + (i - n))" .
    moreover have "\<not> i - p < n" "i - n < c" "\<not> i < p" "i - p - n = i - n - p" "p \<le> i - n"
      using after i by arith+
    ultimately show ?thesis
      using assms(1) by (simp add: nth_append min_def)
  qed
  then show "?l ! i = ?r ! i"
    using i by simp
qed

lemma Insert_elems:
  assumes "num \<noteq> 0" "pSrc \<noteq> 0" "unat position \<le> unat (numElements s)"
    "unat (numElements s) + unat num \<le> unat (capacity s)"
    "pSrc + unat num \<le> pData s + unat position + unat num \<or>
     pData s + unat (numElements s) + unat num \<le> pSrc"
  shows "\<exists>s'. Insert position pSrc num s = (pData s + unat position, s') \<and>
           elems s' = take (unat position) (elems s) @ map (\<lambda>i. mem s (pSrc + i)) [0..<unat num] @
                      drop (unat position) (elems s) \<and>
           numElements s' = numElements s + num \<and> capacity s' = capacity s \<and> pData s' = pData s"
proof -
  have "unat (capacity s) < 2 ^ 32"
    using unsigned_less [of "capacity s"] by simp
  then have sum: "unat (numElements s + num) = unat (numElements s) + unat num"
    using assms(4) by (simp add: unat_add_lem [THEN iffD1])
  have fit: "numElements s + num \<le> capacity s"
    using assms(4) sum by (simp add: word_le_nat_alt)
  have pos: "position \<le> numElements s"
    using assms(3) by (simp add: word_le_nat_alt)
  have mv: "unat (numElements s - position) = unat (numElements s) - unat position"
    using assms(3) by (simp add: unat_minus_le)
  have dst: "pData s + unat (numElements s) + unat num - (unat (numElements s) - unat position) =
             pData s + unat position + unat num"
    using assms(3) by simp
  show ?thesis
    using insert_cells [OF assms(3) assms(5), of "mem s"]
    by (simp add: Insert_fits [OF assms(1,2) pos fit] elems_def sum mv dst)
qed

lemma length_elems: "length (elems s) = unat (numElements s)"
  by (simp add: elems_def)

lemma Erase_Insert_roundtrip:
  assumes "unat position + unat num < unat (numElements s)"
    and "numElements s \<le> capacity s"
    and "num \<noteq> 0" and "pSrc \<noteq> 0"
    and "pSrc + unat num \<le> pData s + unat position \<or> pData s + unat (numElements s) \<le> pSrc"
    and "map (\<lambda>i. mem s (pSrc + i)) [0..<unat num] = take (unat num) (drop (unat position) (elems s))"
  shows "\<exists>s1 s2. Erase position num s = (pData s + unat position, s1) \<and>
           Insert position pSrc num s1 = (pData s + unat position, s2) \<and>
           elems s2 = elems s \<and> numElements s2 = numElements s \<and>
           capacity s2 = capacity s \<and> pData s2 = pData s"
proof -
  let ?p = "unat position" and ?n = "unat num" and ?c = "unat (numElements s)"
  obtain r s1 where e: "Erase position num s = (r, s1)"
    by (cases "Erase position num s")
  note e1 = Erase_elems [OF assms(1) e]
  have m1: "mem s1 = memmove (mem s) (pData s + ?p) (pData s + ?p + ?n) (?c - ?p - 1)"
    using e unfolding Erase_erases [OF assms(1)] by auto
  have n1: "numElements s1 = numElements s - num"
    using e unfolding Erase_erases [OF assms(1)] by auto
  have src: "map (\<lambda>i. mem s1 (pSrc + i)) [0..<?n] = map (\<lambda>i. mem s (pSrc + i)) [0..<?n]"
    using assms(1,5) by (auto simp: m1 memmove_outside)
  have "\<exists>s2. Insert position pSrc num s1 = (pData s1 + ?p, s2) \<and>
           elems s2 = take ?p (elems s1) @ map (\<lambda>i. mem s1 (pSrc + i)) [0..<?n] @ drop ?p (elems s1) \<and>
           numElements s2 = numElements s1 + num \<and> capacity s2 = capacity s1 \<and> pData s2 = pData s1"
  proof (rule Insert_elems)
    show "num \<noteq> 0" "pSrc \<noteq> 0" by fact+
    show "?p \<le> unat (numElements s1)"
      using assms(1) e1(2) by simp
    show "unat (numElements s1) + ?n \<le> unat (capacity s1)"
      using assms(1,2) e1(2,3) by (simp add: word_le_nat_alt)
    show "pSrc + ?n \<le> pData s1 + ?p + ?n \<or> pData s1 + unat (numElements s1) + ?n \<le> pSrc"
      using assms(1,5) e1(2,4) by auto
  qed
  then obtain s2 where i: "Insert position pSrc num s1 = (pData s1 + ?p, s2)"
    and e2: "elems s2 = take ?p (elems s1) @ map (\<lambda>i. mem s1 (pSrc + i)) [0..<?n] @ drop ?p (elems s1)"
    and f2: "numElements s2 = numElements s1 + num" "capacity s2 = capacity s1" "pData s2 = pData s1"
    by blast
  have "elems s2 = take ?p (elems s) @ take ?n (drop ?p (elems s)) @ drop (?p + ?n) (elems s)"
    using assms(1) by (simp add: e2 src assms(6) e1(1) length_elems)
  also have "\<dots> = take ?p (elems s) @ drop ?p (elems s)"
    by (metis add.commute append_take_drop_id drop_drop)
  finally have "elems s2 = elems s"
    by simp
  then show ?thesis
    using e e1 i f2 n1 by simp
qed

text \<open>
  C2 at \<open>position + num = count\<close>: on the array \<open>[10, 20]\<close>, \<^verbatim>\<open>Erase(1, 1)\<close> returns null
  and erases nothing, so that inserting the element 20 again at index 1 (from a buffer at
  address 200) gives \<open>[10, 20, 20]\<close> with count 3. For \<open>position + num < count\<close> the round
  trip holds (lemma \<open>Erase_Insert_roundtrip\<close>).
\<close>

theorem Erase_Insert_last_element:
  "elems \<lparr>TSize = 4, pAllocator = [], pData = 100, numElements = 2, capacity = 4,
          mem = blank(100 := 10, 101 := 20, 200 := 20)\<rparr> = [10, 20] \<and>
   Erase 1 1 \<lparr>TSize = 4, pAllocator = [], pData = 100, numElements = 2, capacity = 4,
              mem = blank(100 := 10, 101 := 20, 200 := 20)\<rparr> =
     (0, \<lparr>TSize = 4, pAllocator = [], pData = 100, numElements = 2, capacity = 4,
          mem = blank(100 := 10, 101 := 20, 200 := 20)\<rparr>) \<and>
   fst (Insert 1 200 1 \<lparr>TSize = 4, pAllocator = [], pData = 100, numElements = 2, capacity = 4,
              mem = blank(100 := 10, 101 := 20, 200 := 20)\<rparr>) = 101 \<and>
   elems (snd (Insert 1 200 1 \<lparr>TSize = 4, pAllocator = [], pData = 100, numElements = 2,
              capacity = 4, mem = blank(100 := 10, 101 := 20, 200 := 20)\<rparr>)) = [10, 20, 20] \<and>
   numElements (snd (Insert 1 200 1 \<lparr>TSize = 4, pAllocator = [], pData = 100, numElements = 2,
              capacity = 4, mem = blank(100 := 10, 101 := 20, 200 := 20)\<rparr>)) = 3"
  by (simp add: Erase_def Insert.simps begin_ptr_def end_ptr_def Size_def elems_def upt2 upt3
      memcpy_def memmove_def word_le_nat_alt word_less_nat_alt)

section \<open>Sequences of operations\<close>

















section \<open>The cursor: check, then act or poison\<close>

lemmas buffer_defs = Read_def op_extract_def Write_T_def Write_def Skip_def
  ReserveArrayUnaligned_def NewUnaligned_def

lemma exec_op_passes:
  assumes "checked_size x \<le> SizeLeft mb"
  shows "exec_op x mb =
           (performed_result x mb,
            mb\<lparr>mb_position := mb_position mb + checked_size x, store := performed_store x mb\<rparr>)"
  using assms by (cases x) (simp_all add: buffer_defs)

lemma exec_op_fails:
  assumes "\<not> checked_size x \<le> SizeLeft mb"
  shows "exec_op x mb = (failed_result x, mb\<lparr>mb_end := 0, mb_position := 0\<rparr>)"
  using assms by (cases x) (simp_all add: buffer_defs)

lemma copy_in_nothing: "copy_in h p t 0 = h"
  by (rule ext) (simp add: copy_in_def)

lemma copy_bytes_nothing: "copy_bytes h dst src 0 = h"
  by (rule ext) (simp add: copy_bytes_def)

lemma load_nothing: "load h p 0 = []"
  by (simp add: load_def)

lemma SizeLeft_poisoned: "poisoned mb \<Longrightarrow> SizeLeft mb = 0"
  by (simp add: poisoned_def SizeLeft_def)

lemma poisoned_not_Good: "poisoned mb \<Longrightarrow> \<not> Good mb"
  by (simp add: poisoned_def Good_def)

lemma performed_store_nothing: "checked_size x = 0 \<Longrightarrow> performed_store x mb = store mb"
  by (cases x) (simp_all add: copy_in_nothing copy_bytes_nothing)

lemma performed_result_nothing:
  "checked_size x = 0 \<Longrightarrow> mb_position mb = 0 \<Longrightarrow> carries_nothing (performed_result x mb)"
  by (cases x) (simp_all add: load_nothing)

lemma failed_result_nothing: "carries_nothing (failed_result x)"
  by (cases x) simp_all

lemma exec_op_poisoned:
  assumes "poisoned mb"
  shows "snd (exec_op x mb) = mb" and "carries_nothing (fst (exec_op x mb))"
    and "checked_size x \<noteq> 0 \<Longrightarrow> fst (exec_op x mb) = failed_result x"
proof -
  have z: "mb_end mb = 0" "mb_position mb = 0" "SizeLeft mb = 0"
    using assms by (simp_all add: poisoned_def SizeLeft_def)
  have same: "mb\<lparr>mb_end := 0, mb_position := 0\<rparr> = mb"
    using z by simp
  show "snd (exec_op x mb) = mb"
  proof (cases "checked_size x = 0")
    case True
    then show ?thesis
      using z by (simp add: exec_op_passes performed_store_nothing)
  next
    case False
    then show ?thesis
      using z same by (simp add: exec_op_fails)
  qed
  show "carries_nothing (fst (exec_op x mb))"
  proof (cases "checked_size x = 0")
    case True
    then show ?thesis
      using z by (simp add: exec_op_passes performed_result_nothing)
  next
    case False
    then show ?thesis
      using z by (simp add: exec_op_fails failed_result_nothing)
  qed
  show "checked_size x \<noteq> 0 \<Longrightarrow> fst (exec_op x mb) = failed_result x"
    using z by (simp add: exec_op_fails)
qed

lemma exec_ops_poisoned:
  "poisoned mb \<Longrightarrow> exec_ops xs mb = mb \<and> list_all carries_nothing (results xs mb)"
  by (induction xs) (simp_all add: exec_op_poisoned)

lemma exec_ops_append: "exec_ops (xs @ ys) mb = exec_ops ys (exec_ops xs mb)"
  by (induction xs arbitrary: mb) simp_all

lemma results_append: "results (xs @ ys) mb = results xs mb @ results ys (exec_ops xs mb)"
  by (induction xs arbitrary: mb) simp_all

lemma results_poisoned:
  "poisoned mb \<Longrightarrow> results xs mb = map (\<lambda>x. fst (exec_op x mb)) xs"
  by (induction xs) (simp_all add: exec_op_poisoned)

lemma poisoned_after_failure: "poisoned (mb\<lparr>mb_end := 0, mb_position := 0\<rparr>)"
  by (simp add: poisoned_def)

lemma unat_of_nat_small: "i < 2 ^ 64 \<Longrightarrow> unat (of_nat i :: size_t) = i"
  by (simp add: unat_of_nat)

lemma offset_inside:
  assumes "i < unat (n::size_t)"
  shows "p + of_nat i - p < n" and "unat (p + of_nat i - p) = i"
proof -
  have "unat n < 2 ^ 64"
    using unsigned_less [of n] by simp
  then have "unat (of_nat i :: size_t) = i"
    using assms by (simp add: unat_of_nat_small)
  then show "p + of_nat i - p < n" and "unat (p + of_nat i - p) = i"
    using assms by (simp_all add: word_less_nat_alt)
qed

lemma offset_outside:
  assumes "\<forall>i < unat (n::size_t). a \<noteq> p + of_nat i"
  shows "\<not> a - p < n"
proof
  assume "a - p < n"
  then have "unat (a - p) < unat n"
    by (simp add: word_less_nat_alt)
  moreover have "a = p + of_nat (unat (a - p))"
    by simp
  ultimately show False
    using assms by blast
qed

lemma checked_size_required:
  assumes "required x < 2 ^ 64"
  shows "unat (checked_size x) = required x"
proof (cases x)
  case (BReserveArray sizeof_T numElems)
  have "unat numElems * unat sizeof_T < 2 ^ LENGTH(64)"
    using assms BReserveArray by simp
  then show ?thesis
    using BReserveArray by (simp add: unat_mult_lem [THEN iffD1])
qed (use assms in \<open>simp_all add: unat_of_nat_small\<close>)

lemma check_passes_iff:
  assumes "required x < 2 ^ 64"
  shows "checked_size x \<le> SizeLeft mb \<longleftrightarrow> required x \<le> unat (SizeLeft mb)"
  using checked_size_required [OF assms] by (simp add: word_le_nat_alt)

lemma required_fits: "required x \<le> unat (SizeLeft mb) \<Longrightarrow> required x < 2 ^ 64"
  using unsigned_less [of "SizeLeft mb", where 'a = nat] by simp

lemma performed_result_expected: "performed_result x mb = expected_result x mb"
  by (cases x) (simp_all add: load_def)

lemma performed_store_inside:
  assumes "required x < 2 ^ 64" "i < required x"
  shows "performed_store x mb (mb_position mb + of_nat i) = source_byte x mb i"
proof -
  have i: "i < unat (checked_size x)"
    using assms by (simp add: checked_size_required)
  show ?thesis
    using offset_inside [OF i, of "mb_position mb"]
    by (cases x) (simp_all add: copy_in_def copy_bytes_def)
qed

lemma performed_store_outside:
  assumes "required x < 2 ^ 64" "\<forall>i < required x. a \<noteq> mb_position mb + of_nat i"
  shows "performed_store x mb a = store mb a"
proof -
  have "\<forall>i < unat (checked_size x). a \<noteq> mb_position mb + of_nat i"
    using assms by (simp add: checked_size_required)
  then have "\<not> a - mb_position mb < checked_size x"
    by (rule offset_outside)
  then show ?thesis
    by (cases x) (simp_all add: copy_in_def copy_bytes_def)
qed

lemma checked_size_of_nat:
  assumes "required x < 2 ^ 64"
  shows "checked_size x = of_nat (required x)"
proof -
  have "of_nat (unat (checked_size x)) = checked_size x"
    by simp
  then show ?thesis
    by (simp only: checked_size_required [OF assms])
qed

lemma exec_op_poisoned_fails:
  assumes "poisoned mb" "required x \<noteq> 0"
  shows "fst (exec_op x mb) = failed_result x"
proof (cases "checked_size x = 0")
  case False
  then show ?thesis
    by (rule exec_op_poisoned(3) [OF assms(1)])
next
  case True
  have z: "mb_position mb = 0" "SizeLeft mb = 0"
    using assms(1) by (simp_all add: poisoned_def SizeLeft_def)
  have "fst (exec_op x mb) = performed_result x mb"
    using True z by (simp add: exec_op_passes)
  also have "\<dots> = failed_result x"
    using True z assms(2) by (cases x) (simp_all add: unat_eq_0)
  finally show ?thesis .
qed


text \<open>
  C3, as the code has it. Let \<open>required\<close> be the number of bytes an operation needs. When they
  fit in what \<^verbatim>\<open>SizeLeft()\<close> reports, the operation performs its copy and advances: the result
  is the bytes found from the old position on (for a read) or the old position (for a
  reservation), \<^verbatim>\<open>end\<close> stays, the position moves on by \<open>required\<close>, every byte written is
  at its offset from the old position, and every other byte of the store is as before. When
  they do not fit, and \<open>required\<close> is below \<open>2^64\<close>, the operation clears both pointers and
  nothing else: the store is as it was, no byte is read, the pointer returned is null. From
  such a failure on, whatever operations follow, the cursor stays in that state:
  \<^verbatim>\<open>Good()\<close> is false, \<^verbatim>\<open>SizeLeft()\<close> is 0, the store does not change, no result carries
  anything, and every operation that needs at least one byte gets the result of a failure,
  also one that would fit in the original range.
\<close>

theorem cursor_check_act_poison:
  "(required x \<le> unat (SizeLeft mb) \<longrightarrow>
      fst (exec_op x mb) = expected_result x mb \<and>
      mb_end (snd (exec_op x mb)) = mb_end mb \<and>
      mb_position (snd (exec_op x mb)) = mb_position mb + of_nat (required x) \<and>
      (\<forall>i < required x.
          store (snd (exec_op x mb)) (mb_position mb + of_nat i) = source_byte x mb i) \<and>
      (\<forall>a. (\<forall>i < required x. a \<noteq> mb_position mb + of_nat i) \<longrightarrow>
          store (snd (exec_op x mb)) a = store mb a))
   \<and> (\<not> required x \<le> unat (SizeLeft mb) \<and> required x < 2 ^ 64 \<longrightarrow>
      exec_op x mb = (failed_result x, mb\<lparr>mb_end := 0, mb_position := 0\<rparr>))
   \<and> (\<not> required x \<le> unat (SizeLeft (exec_ops xs mb)) \<and> required x < 2 ^ 64 \<longrightarrow>
      \<not> Good (exec_ops (xs @ x # ys) mb) \<and>
      mb_end (exec_ops (xs @ x # ys) mb) = 0 \<and>
      mb_position (exec_ops (xs @ x # ys) mb) = 0 \<and>
      SizeLeft (exec_ops (xs @ x # ys) mb) = 0 \<and>
      store (exec_ops (xs @ x # ys) mb) = store (exec_ops xs mb) \<and>
      list_all carries_nothing (results ys (exec_ops (xs @ [x]) mb)) \<and>
      (\<forall>k < length ys. required (ys ! k) \<noteq> 0 \<longrightarrow>
           results ys (exec_ops (xs @ [x]) mb) ! k = failed_result (ys ! k)))"
proof (intro conjI impI)
  assume a: "required x \<le> unat (SizeLeft mb)"
  then have fit: "required x < 2 ^ 64"
    by (rule required_fits)
  then have "checked_size x \<le> SizeLeft mb"
    using a by (simp add: check_passes_iff)
  then have e: "exec_op x mb =
        (performed_result x mb,
         mb\<lparr>mb_position := mb_position mb + checked_size x, store := performed_store x mb\<rparr>)"
    by (rule exec_op_passes)
  show "fst (exec_op x mb) = expected_result x mb"
    by (simp add: e performed_result_expected)
  show "mb_end (snd (exec_op x mb)) = mb_end mb"
    by (simp add: e)
  show "mb_position (snd (exec_op x mb)) = mb_position mb + of_nat (required x)"
    by (simp add: e checked_size_of_nat [OF fit])
  show "\<forall>i < required x.
          store (snd (exec_op x mb)) (mb_position mb + of_nat i) = source_byte x mb i"
    using fit by (simp add: e performed_store_inside)
  show "\<forall>a. (\<forall>i < required x. a \<noteq> mb_position mb + of_nat i) \<longrightarrow>
          store (snd (exec_op x mb)) a = store mb a"
    using fit by (simp add: e performed_store_outside)
next
  assume "\<not> required x \<le> unat (SizeLeft mb) \<and> required x < 2 ^ 64"
  then have "\<not> checked_size x \<le> SizeLeft mb"
    by (simp add: check_passes_iff)
  then show "exec_op x mb = (failed_result x, mb\<lparr>mb_end := 0, mb_position := 0\<rparr>)"
    by (rule exec_op_fails)
next
  assume "\<not> required x \<le> unat (SizeLeft (exec_ops xs mb)) \<and> required x < 2 ^ 64"
  then have f: "\<not> checked_size x \<le> SizeLeft (exec_ops xs mb)"
    by (simp add: check_passes_iff)
  let ?p = "(exec_ops xs mb)\<lparr>mb_end := 0, mb_position := 0\<rparr>"
  have p: "poisoned ?p"
    by (rule poisoned_after_failure)
  have after: "exec_ops (xs @ [x]) mb = ?p"
    using f by (simp add: exec_ops_append exec_op_fails)
  have final: "exec_ops (xs @ x # ys) mb = ?p"
    using f exec_ops_poisoned [OF p, of ys] by (simp add: exec_ops_append exec_op_fails)
  show "\<not> Good (exec_ops (xs @ x # ys) mb)"
    using p by (simp add: final poisoned_not_Good)
  show "mb_end (exec_ops (xs @ x # ys) mb) = 0" "mb_position (exec_ops (xs @ x # ys) mb) = 0"
    "store (exec_ops (xs @ x # ys) mb) = store (exec_ops xs mb)"
    by (simp_all add: final)
  show "SizeLeft (exec_ops (xs @ x # ys) mb) = 0"
    using p by (simp add: final SizeLeft_poisoned)
  show "list_all carries_nothing (results ys (exec_ops (xs @ [x]) mb))"
    using exec_ops_poisoned [OF p, of ys] by (simp add: after)
  show "\<forall>k < length ys. required (ys ! k) \<noteq> 0 \<longrightarrow>
           results ys (exec_ops (xs @ [x]) mb) ! k = failed_result (ys ! k)"
    using p by (simp add: after results_poisoned exec_op_poisoned_fails)
qed


text \<open>A run of the theorem: a cursor over the 8 bytes from address \<open>0x1000\<close>. Writing a
  4-byte value passes, puts the bytes in place, leaves the byte after them alone and leaves 4
  bytes; a read of two bytes returns the two bytes at the position; writing an 8-byte value
  into the 4 bytes left fails and poisons the cursor; a later read of one byte gets
  nothing.\<close>

theorem cursor_check_act_poison_witness:
  "required (BWrite_T [1, 2, 3, 4]) \<le> unat (SizeLeft (MemoryBuffer_sized 0x1000 8 zeros)) \<and>
   mb_position (snd (exec_op (BWrite_T [1, 2, 3, 4]) (MemoryBuffer_sized 0x1000 8 zeros))) = 0x1004 \<and>
   store (snd (exec_op (BWrite_T [1, 2, 3, 4]) (MemoryBuffer_sized 0x1000 8 zeros))) 0x1001 = 2 \<and>
   store (snd (exec_op (BWrite_T [1, 2, 3, 4]) (MemoryBuffer_sized 0x1000 8 zeros))) 0x1004 = 0 \<and>
   fst (exec_op (BRead 2) (MemoryBuffer_sized 0x1000 8 (zeros(0x1000 := 7, 0x1001 := 9)))) =
     Value (Some [7, 9]) \<and>
   \<not> required (BWrite_T [1, 2, 3, 4, 5, 6, 7, 8])
       \<le> unat (SizeLeft \<lparr>mb_end = 0x1008, mb_position = 0x1004, store = zeros\<rparr>) \<and>
   exec_op (BWrite_T [1, 2, 3, 4, 5, 6, 7, 8])
       \<lparr>mb_end = 0x1008, mb_position = 0x1004, store = zeros\<rparr> =
     (Nothing, \<lparr>mb_end = 0, mb_position = 0, store = zeros\<rparr>) \<and>
   \<not> Good (exec_ops ([BWrite_T [1, 2, 3, 4]] @ BWrite_T [1, 2, 3, 4, 5, 6, 7, 8] # [BRead 1])
            (MemoryBuffer_sized 0x1000 8 zeros)) \<and>
   results [BRead 1] (exec_ops ([BWrite_T [1, 2, 3, 4]] @ [BWrite_T [1, 2, 3, 4, 5, 6, 7, 8]])
            (MemoryBuffer_sized 0x1000 8 zeros)) ! 0 = Value None"
proof -
  let ?mb = "MemoryBuffer_sized 0x1000 8 zeros"
  let ?w4 = "BWrite_T [1, 2, 3, 4]" and ?w8 = "BWrite_T [1, 2, 3, 4, 5, 6, 7, 8]"
  let ?mb1 = "\<lparr>mb_end = 0x1008, mb_position = 0x1004, store = zeros\<rparr>"
  let ?mbr = "MemoryBuffer_sized 0x1000 8 (zeros(0x1000 := 7, 0x1001 := 9))"
  have left: "SizeLeft ?mb = 8" "SizeLeft ?mbr = 8" "SizeLeft ?mb1 = 4"
    by (simp_all add: MemoryBuffer_sized_def SizeLeft_def)
  have 1: "required ?w4 \<le> unat (SizeLeft ?mb)"
    by (simp add: left)
  note w = cursor_check_act_poison [where x = ?w4 and mb = ?mb and xs = "[]" and ys = "[]",
      THEN conjunct1, rule_format, OF 1]
  have pos: "mb_position (snd (exec_op ?w4 ?mb)) = 0x1004"
    using w by (simp add: MemoryBuffer_sized_def)
  have b1: "store (snd (exec_op ?w4 ?mb)) 0x1001 = 2"
    using w [THEN conjunct2, THEN conjunct2, THEN conjunct2, THEN conjunct1, rule_format, of 1]
    by (simp add: MemoryBuffer_sized_def)
  have "(0x1004::size_t) \<noteq> 0x1000 + of_nat i" if "i < 4" for i :: nat
  proof
    assume "(0x1004::size_t) = 0x1000 + of_nat i"
    then have "(of_nat i :: size_t) = 0x1004 - 0x1000"
      by (simp only: add_diff_cancel_left')
    then have "unat (of_nat i :: size_t) = 4"
      by simp
    then show False
      using that by (simp add: unat_of_nat_small)
  qed
  then have "\<forall>i < required ?w4. (0x1004::size_t) \<noteq> mb_position ?mb + of_nat i"
    by (simp add: MemoryBuffer_sized_def)
  then have b4: "store (snd (exec_op ?w4 ?mb)) 0x1004 = 0"
    using w [THEN conjunct2, THEN conjunct2, THEN conjunct2, THEN conjunct2, rule_format,
        of "0x1004"]
    by (simp add: MemoryBuffer_sized_def zeros_def)
  have 2: "required (BRead 2) \<le> unat (SizeLeft ?mbr)"
    by (simp add: left)
  have rd: "fst (exec_op (BRead 2) ?mbr) = Value (Some [7, 9])"
    using cursor_check_act_poison [where x = "BRead 2" and mb = ?mbr and xs = "[]" and ys = "[]",
        THEN conjunct1, rule_format, OF 2]
    by (simp add: MemoryBuffer_sized_def upt_rec)
  have 3: "\<not> required ?w8 \<le> unat (SizeLeft ?mb1)" "required ?w8 < 2 ^ 64"
    by (simp_all add: left)
  have fl: "exec_op ?w8 ?mb1 = (Nothing, \<lparr>mb_end = 0, mb_position = 0, store = zeros\<rparr>)"
    using 3 cursor_check_act_poison [where x = ?w8 and mb = ?mb1 and xs = "[]" and ys = "[]"]
    by simp
  have 5: "\<not> required ?w8 \<le> unat (SizeLeft (exec_ops [?w4] ?mb))"
    by (simp add: MemoryBuffer_sized_def Write_T_def SizeLeft_def word_le_nat_alt)
  have st: "\<not> Good (exec_ops ([?w4] @ ?w8 # [BRead 1]) ?mb)"
    "results [BRead 1] (exec_ops ([?w4] @ [?w8]) ?mb) ! 0 = Value None"
    using 3(2) 5 cursor_check_act_poison [where x = ?w8 and mb = ?mb and xs = "[?w4]"
        and ys = "[BRead 1]"]
    by simp_all
  show ?thesis
    using 1 pos b1 b4 rd 3 fl st by simp
qed

text \<open>C3 as stated fails where \<^verbatim>\<open>numElements * sizeof(T)\<close> wraps in \<^verbatim>\<open>size_t\<close>: on a cursor
  over 8 bytes, \<^verbatim>\<open>ReserveArrayUnaligned\<close> of \<open>2^62 + 1\<close> elements of 4 bytes needs more than 8
  bytes, yet the product the code compares is 4, the check passes, a pointer is returned and
  the cursor stays good.\<close>

theorem ReserveArray_wraps_counterexample:
  "\<not> required (BReserveArray 4 0x4000000000000001)
       \<le> unat (SizeLeft (MemoryBuffer_sized 0x1000 8 zeros)) \<and>
   ReserveArrayUnaligned 4 0x4000000000000001 (MemoryBuffer_sized 0x1000 8 zeros) =
     (0x1000, \<lparr>mb_end = 0x1008, mb_position = 0x1004, store = zeros\<rparr>) \<and>
   Good (snd (ReserveArrayUnaligned 4 0x4000000000000001 (MemoryBuffer_sized 0x1000 8 zeros)))"
  by (simp add: MemoryBuffer_sized_def SizeLeft_def ReserveArrayUnaligned_def Good_def
      word_le_nat_alt)

section \<open>The default cursor\<close>

text \<open>
  C10: the cursor built by \<^verbatim>\<open>MemoryBuffer()\<close> is poisoned from the start: \<^verbatim>\<open>Good()\<close> is
  false, \<^verbatim>\<open>SizeLeft()\<close> is 0, and a \<^verbatim>\<open>Read\<close>, \<^verbatim>\<open>operator>>\<close>, \<^verbatim>\<open>Write\<close> or \<^verbatim>\<open>Skip\<close> of
  a size that is not zero reads and writes nothing and leaves the cursor as it is.
\<close>

theorem default_cursor_is_poisoned:
  "\<not> Good (MemoryBuffer_default h) \<and> SizeLeft (MemoryBuffer_default h) = 0 \<and>
   (n \<noteq> 0 \<longrightarrow>
      Read n (MemoryBuffer_default h) = (None, MemoryBuffer_default h) \<and>
      op_extract n (MemoryBuffer_default h) = (None, MemoryBuffer_default h) \<and>
      Write p n (MemoryBuffer_default h) = MemoryBuffer_default h \<and>
      Skip n (MemoryBuffer_default h) = MemoryBuffer_default h) \<and>
   (of_nat (length t) \<noteq> (0::size_t) \<longrightarrow>
      Write_T t (MemoryBuffer_default h) = MemoryBuffer_default h)"
proof -
  have left: "SizeLeft (MemoryBuffer_default h) = 0"
    by (simp add: MemoryBuffer_default_def SizeLeft_def)
  have cleared: "(MemoryBuffer_default h)\<lparr>mb_end := 0, mb_position := 0\<rparr> = MemoryBuffer_default h"
    by (simp add: MemoryBuffer_default_def)
  have "\<not> Good (MemoryBuffer_default h)"
    by (simp add: MemoryBuffer_default_def Good_def)
  then show ?thesis
    using left cleared by (simp add: buffer_defs)
qed

theorem default_cursor_is_poisoned_witness:
  "(4::size_t) \<noteq> 0 \<and> of_nat (length [1, 2 :: byte]) \<noteq> (0::size_t) \<and>
   \<not> Good (MemoryBuffer_default zeros) \<and> SizeLeft (MemoryBuffer_default zeros) = 0 \<and>
   Read 4 (MemoryBuffer_default zeros) = (None, MemoryBuffer_default zeros) \<and>
   op_extract 4 (MemoryBuffer_default zeros) = (None, MemoryBuffer_default zeros) \<and>
   Write 0x2000 4 (MemoryBuffer_default zeros) = MemoryBuffer_default zeros \<and>
   Skip 4 (MemoryBuffer_default zeros) = MemoryBuffer_default zeros \<and>
   Write_T [1, 2] (MemoryBuffer_default zeros) = MemoryBuffer_default zeros"
  using default_cursor_is_poisoned [where h = zeros and n = 4 and p = "0x2000" and t = "[1, 2]"]
  by simp

end
